theory Spec2Isabelle
  imports Complex_Main
begin

section \<open>Synthetic cloud fields: a model of \<open>cloudfield.py\<close>\<close>

text \<open>
  The module builds a random field by stacking bilinearly interpolated layers
  (\<open>_random_at_scale\<close>, \<open>stacked_field\<close>), thresholds it by a quantile
  (\<open>_clip_field\<close>), finds cloud edges (\<open>_find_edges\<close>) and remaps the values
  (\<open>shift_mean_lave\<close>, \<open>lave_scaling_exact\<close>).

  Conventions of the model.
  \<^item> A two-dimensional array is the list of its rows.
  \<^item> Numbers are exact reals: rounding of binary floating point is not modelled. Where
    numpy can leave the reals (a division in the remapping functions), the values are
    reals extended by inf, -inf and nan.
  \<^item> Python names with a leading underscore lose it (\<open>_clip_field\<close> is \<open>clip_field\<close>).
  \<^item> The \<open>plot\<close> arguments are taken as \<open>False\<close> and the diagnostic \<open>print\<close> calls
    are left out; neither changes a returned value.
  \<^item> An exception is a value of type \<open>error\<close> on the left of a sum.
\<close>

subsection \<open>Exceptions\<close>

datatype error =
    ValueError        \<comment> \<open>numpy or scipy rejects an argument\<close>
  | IndexError        \<comment> \<open>an empty array is indexed\<close>
  | AssertionError    \<comment> \<open>an \<open>assert\<close> of the module fails\<close>
  | NonFinite         \<comment> \<open>no exception: numpy goes on with inf or nan where the model stops\<close>

subsection \<open>Library functions of numpy\<close>

text \<open>
  \<open>np.quantile(a, q)\<close> with the default linear method on the flattened array: the
  virtual index \<open>(n - 1) * q\<close> is split into its floor and its fractional part, and the
  result interpolates between the two neighbouring order statistics. A \<open>q\<close> outside
  \<open>[0, 1]\<close> raises \<open>ValueError\<close>; an empty array raises \<open>IndexError\<close> (numpy
  from 1.22 on; older versions returned nan).
\<close>

definition quantile :: "real list \<Rightarrow> real \<Rightarrow> error + real" where
  "quantile a q =
     (if \<not> (0 \<le> q \<and> q \<le> 1) then Inl ValueError
      else if a = [] then Inl IndexError
      else
        let arr = sort a;
            n = length a;
            virtual_index = real (n - 1) * q;
            previous_index = nat \<lfloor>virtual_index\<rfloor>;
            next_index = min (previous_index + 1) (n - 1);
            gamma = virtual_index - real previous_index
        in Inr (arr ! previous_index + (arr ! next_index - arr ! previous_index) * gamma))"

text \<open>
  \<open>np.isclose(a, b, rtol=rtol)\<close> on finite numbers, with the default \<open>atol = 1e-8\<close>:
  the tolerance is relative to the second argument.
\<close>

definition isclose :: "real \<Rightarrow> real \<Rightarrow> real \<Rightarrow> bool" where
  "isclose a b rtol = (\<bar>a - b\<bar> \<le> 1 / 10 ^ 8 + rtol * \<bar>b\<bar>)"

subsection \<open>Floating-point values outside the reals\<close>

text \<open>
  numpy does not raise on a division by zero or on an undefined operation: under its
  default error state it warns and produces \<open>inf\<close>, \<open>-inf\<close> or \<open>nan\<close>, and goes on.
  The remapping functions are modelled over reals extended by these three values, with
  the IEEE 754 rules, exact on finite values. The sign of zero is not modelled: a zero
  divisor counts as \<open>+0\<close>.
\<close>

datatype npfloat = Fin real | PInf | NInf | NaN

fun np_neg :: "npfloat \<Rightarrow> npfloat" where
  "np_neg (Fin a) = Fin (- a)"
| "np_neg PInf = NInf"
| "np_neg NInf = PInf"
| "np_neg NaN = NaN"

fun np_add :: "npfloat \<Rightarrow> npfloat \<Rightarrow> npfloat" where
  "np_add (Fin a) (Fin b) = Fin (a + b)"
| "np_add NaN y = NaN"
| "np_add x NaN = NaN"
| "np_add PInf NInf = NaN"
| "np_add NInf PInf = NaN"
| "np_add PInf y = PInf"
| "np_add x PInf = PInf"
| "np_add NInf y = NInf"
| "np_add x NInf = NInf"

definition np_sub :: "npfloat \<Rightarrow> npfloat \<Rightarrow> npfloat" where
  "np_sub x y = np_add x (np_neg y)"

fun np_mul :: "npfloat \<Rightarrow> npfloat \<Rightarrow> npfloat" where
  "np_mul (Fin a) (Fin b) = Fin (a * b)"
| "np_mul NaN y = NaN"
| "np_mul x NaN = NaN"
| "np_mul (Fin a) PInf = (if a = 0 then NaN else if 0 < a then PInf else NInf)"
| "np_mul (Fin a) NInf = (if a = 0 then NaN else if 0 < a then NInf else PInf)"
| "np_mul PInf (Fin b) = (if b = 0 then NaN else if 0 < b then PInf else NInf)"
| "np_mul NInf (Fin b) = (if b = 0 then NaN else if 0 < b then NInf else PInf)"
| "np_mul PInf PInf = PInf"
| "np_mul NInf NInf = PInf"
| "np_mul PInf NInf = NInf"
| "np_mul NInf PInf = NInf"

fun np_div :: "npfloat \<Rightarrow> npfloat \<Rightarrow> npfloat" where
  "np_div (Fin a) (Fin b) =
     (if b \<noteq> 0 then Fin (a / b) else if a = 0 then NaN else if 0 < a then PInf else NInf)"
| "np_div NaN y = NaN"
| "np_div x NaN = NaN"
| "np_div (Fin a) y = Fin 0"
| "np_div PInf (Fin b) = (if 0 \<le> b then PInf else NInf)"
| "np_div NInf (Fin b) = (if 0 \<le> b then NInf else PInf)"
| "np_div x y = NaN"

text \<open>Comparisons: every comparison with \<open>nan\<close> is false, except \<open>!=\<close>.\<close>

fun np_less :: "npfloat \<Rightarrow> npfloat \<Rightarrow> bool" where
  "np_less (Fin a) (Fin b) = (a < b)"
| "np_less NaN y = False"
| "np_less x NaN = False"
| "np_less PInf y = False"
| "np_less x NInf = False"
| "np_less x PInf = True"
| "np_less NInf y = True"

definition np_eq :: "npfloat \<Rightarrow> npfloat \<Rightarrow> bool" where
  "np_eq x y = (x = y \<and> x \<noteq> NaN)"

text \<open>
  \<open>np.sum\<close>, \<open>np.mean\<close> (the mean of an empty selection is \<open>0/0\<close>, a nan), and
  \<open>np.min\<close>, \<open>np.max\<close>, which return nan as soon as one element is nan. \<open>np.min\<close> and
  \<open>np.max\<close> of an empty array raise; they are only applied to arrays known to be
  non-empty, and the value given for \<open>[]\<close> is never used.
\<close>

definition np_sum :: "npfloat list \<Rightarrow> npfloat" where
  "np_sum xs = foldl np_add (Fin 0) xs"

definition np_mean :: "npfloat list \<Rightarrow> npfloat" where
  "np_mean xs = np_div (np_sum xs) (Fin (real (length xs)))"

definition np_min2 :: "npfloat \<Rightarrow> npfloat \<Rightarrow> npfloat" where
  "np_min2 x y = (if x = NaN \<or> y = NaN then NaN else if np_less y x then y else x)"

definition np_max2 :: "npfloat \<Rightarrow> npfloat \<Rightarrow> npfloat" where
  "np_max2 x y = (if x = NaN \<or> y = NaN then NaN else if np_less x y then y else x)"

fun np_amin :: "npfloat list \<Rightarrow> npfloat" where
  "np_amin [] = NaN"
| "np_amin (x # xs) = foldl np_min2 x xs"

fun np_amax :: "npfloat list \<Rightarrow> npfloat" where
  "np_amax [] = NaN"
| "np_amax (x # xs) = foldl np_max2 x xs"

text \<open>Two arrays have the same shape when their rows have the same lengths.\<close>

definition same_shape :: "'a list list \<Rightarrow> 'b list list \<Rightarrow> bool" where
  "same_shape A B = (map length A = map length B)"

definition zip2d :: "'a list list \<Rightarrow> 'b list list \<Rightarrow> ('a \<times> 'b) list list" where
  "zip2d A B = map2 zip A B"

subsection \<open>\<open>_random_at_scale\<close>\<close>

text \<open>
  \<open>np.linspace(0, 1, n)\<close>: \<open>n\<close> evenly spaced points from 0 to 1; a single point is
  \<open>[0]\<close>, no point is \<open>[]\<close>.
\<close>

definition linspace01 :: "nat \<Rightarrow> real list" where
  "linspace01 n = (if n = 1 then [0] else map (\<lambda>i. real i / real (n - 1)) [0..<n])"

text \<open>
  The linear method of scipy's \<open>RegularGridInterpolator\<close>. Along one axis,
  \<open>find_indices\<close> gives the two grid indices that enclose a coordinate and the
  normalized distance from the lower one: the cell is the one with
  \<open>grid[i] \<le> v < grid[i + 1]\<close>, the last cell being closed on the right. On an axis
  with a single grid point scipy reads that point twice, with distance 0.
\<close>

definition find_indices :: "real list \<Rightarrow> real \<Rightarrow> nat \<times> nat \<times> real" where
  "find_indices grid v =
     (if length grid = 1 then (0, 0, 0)
      else
        let i = min (length (filter (\<lambda>g. g \<le> v) grid) - 1) (length grid - 2)
        in (i, i + 1, (v - grid ! i) / (grid ! (i + 1) - grid ! i)))"

text \<open>The value at one point: the four corners of the cell, weighted.\<close>

definition evaluate_linear_2d ::
  "real list \<Rightarrow> real list \<Rightarrow> real list list \<Rightarrow> real \<Rightarrow> real \<Rightarrow> real" where
  "evaluate_linear_2d x y vals p q =
     (case find_indices x p of (i0, i0', y0) \<Rightarrow>
      case find_indices y q of (i1, i1', y1) \<Rightarrow>
        vals ! i0 ! i1 * (1 - y0) * (1 - y1)
        + vals ! i0 ! i1' * (1 - y0) * y1
        + vals ! i0' ! i1 * y0 * (1 - y1)
        + vals ! i0' ! i1' * y0 * y1)"

text \<open>
  \<open>RegularGridInterpolator((x, y), vals, method='linear')\<close> called on the mesh of
  \<open>xnew\<close> and \<open>ynew\<close> (\<open>np.meshgrid(..., indexing='ij')\<close>). An axis without grid points
  cannot be read (\<open>IndexError\<close>); with the default \<open>bounds_error=True\<close>, a requested
  point outside the grid raises \<open>ValueError\<close>.
\<close>

definition regular_grid_linear ::
  "real list \<Rightarrow> real list \<Rightarrow> real list list \<Rightarrow> real list \<Rightarrow> real list
     \<Rightarrow> error + real list list" where
  "regular_grid_linear x y vals xnew ynew =
     (if x = [] \<or> y = [] then Inl IndexError
      else if (ynew \<noteq> [] \<and> list_ex (\<lambda>p. p < hd x \<or> last x < p) xnew)
            \<or> (xnew \<noteq> [] \<and> list_ex (\<lambda>q. q < hd y \<or> last y < q) ynew)
      then Inl ValueError
      else Inr (map (\<lambda>p. map (\<lambda>q. evaluate_linear_2d x y vals p q) ynew) xnew))"

text \<open>
  \<open>np.random.rand(r, c)\<close>: the draws are a parameter of the model, \<open>rnd i j\<close> being the
  value drawn for row \<open>i\<close> and column \<open>j\<close>.
\<close>

definition random_grid :: "(nat \<Rightarrow> nat \<Rightarrow> real) \<Rightarrow> nat \<Rightarrow> nat \<Rightarrow> real list list" where
  "random_grid rnd r c = map (\<lambda>i. map (\<lambda>j. rnd i j) [0..<c]) [0..<r]"

definition random_at_scale ::
  "(nat \<Rightarrow> nat \<Rightarrow> real) \<Rightarrow> nat \<times> nat \<Rightarrow> nat \<times> nat
     \<Rightarrow> error + real list list \<times> real list list" where
  "random_at_scale rnd rand_size final_size =
     (let random = random_grid rnd (fst rand_size) (snd rand_size);
          x = linspace01 (fst rand_size);
          y = linspace01 (snd rand_size);
          xnew = linspace01 (fst final_size);
          ynew = linspace01 (snd final_size)
      in case regular_grid_linear x y random xnew ynew of
           Inl e \<Rightarrow> Inl e
         | Inr random_new \<Rightarrow> Inr (random, random_new))"

text \<open>A fixed table of draws in \<open>[0, 1)\<close>, used to run the functions on concrete inputs.\<close>

definition sample_draws :: "nat \<Rightarrow> nat \<Rightarrow> real" where
  "sample_draws i j = real (i * 2 + j) / 4"

subsection \<open>\<open>_calc_vs_weights\<close> and \<open>stacked_field\<close>\<close>

text \<open>
  \<open>VS1 = -np.log(1 - vs/180)/0.6\<close>, \<open>weight = scales ** (1/VS1)\<close>, normalized by its
  sum; \<open>scales\<close> is taken as a numeric array. The real formula is what numpy computes
  when \<open>vs < 180\<close>, \<open>vs \<noteq> 0\<close> and every scale is positive; outside, the logarithm, the
  reciprocal or the power is infinite or undefined, and the model stops with
  \<open>NonFinite\<close>.
\<close>

definition calc_vs_weights :: "int list \<Rightarrow> real \<Rightarrow> error + real list" where
  "calc_vs_weights scales vs =
     (if vs < 180 \<and> vs \<noteq> 0 \<and> (\<forall>s \<in> set scales. 0 < s) then
        let VS1 = - ln (1 - vs / 180) / (6 / 10);
            weight = map (\<lambda>s. real_of_int s powr (1 / VS1)) scales
        in Inr (map (\<lambda>w. w / sum_list weight) weight)
      else Inl NonFinite)"

text \<open>
  \<open>int(n * 2**(-scale + 1))\<close>: for \<open>scale \<ge> 1\<close> the proportion is \<open>1 / 2^(scale - 1)\<close> and
  \<open>int\<close> truncates; for \<open>scale < 1\<close> it is the integer \<open>2^(1 - scale)\<close>.
\<close>

definition coarse :: "nat \<Rightarrow> int \<Rightarrow> nat" where
  "coarse n scale = (if 1 \<le> scale then n div 2 ^ nat (scale - 1) else n * 2 ^ nat (1 - scale))"

text \<open>
  The loop \<open>for scale, weight in zip(scales, weights)\<close>: each round draws a new grid
  (\<open>rnd k\<close> is the table of the \<open>k\<close>-th call of \<open>np.random.rand\<close>), interpolates it to
  the output size \<open>siz\<close> (the argument \<open>size\<close> of the source) and adds the weighted
  layer to the field.
\<close>

fun accumulate ::
  "(nat \<Rightarrow> nat \<Rightarrow> nat \<Rightarrow> real) \<Rightarrow> nat \<Rightarrow> nat \<times> nat \<Rightarrow> (int \<times> real) list
     \<Rightarrow> real list list \<Rightarrow> error + real list list" where
  "accumulate rnd k siz [] field = Inr field"
| "accumulate rnd k siz ((scale, weight) # rest) field =
     (case random_at_scale (rnd k) (coarse (fst siz) scale, coarse (snd siz) scale) siz of
        Inl e \<Rightarrow> Inl e
      | Inr (random, i_field) \<Rightarrow>
          accumulate rnd (Suc k) siz rest
            (map2 (\<lambda>frow irow. map2 (\<lambda>f v. f + v * weight) frow irow) field i_field))"

text \<open>\<open>weights\<close> is \<open>None\<close> or a list whose length the source asserts.\<close>

definition choose_weights :: "real list option \<Rightarrow> int list \<Rightarrow> real \<Rightarrow> error + real list" where
  "choose_weights weights scales vs =
     (case weights of
        None \<Rightarrow> calc_vs_weights scales vs
      | Some w \<Rightarrow> if length w = length scales then Inr w else Inl AssertionError)"

text \<open>The field before normalization: the loop run from \<open>np.zeros(size)\<close>.\<close>

definition stacked_sum ::
  "(nat \<Rightarrow> nat \<Rightarrow> nat \<Rightarrow> real) \<Rightarrow> nat \<times> nat \<Rightarrow> int list \<Rightarrow> real list
     \<Rightarrow> error + real list list" where
  "stacked_sum rnd siz scales ws =
     accumulate rnd 0 siz (zip scales ws) (replicate (fst siz) (replicate (snd siz) 0))"

text \<open>\<open>np.min\<close> and \<open>np.max\<close> of a non-empty array.\<close>

definition amin :: "real list list \<Rightarrow> real" where
  "amin field = Min (set (concat field))"

definition amax :: "real list list \<Rightarrow> real" where
  "amax field = Max (set (concat field))"

text \<open>
  The normalization and the two assertions. \<open>np.min\<close> of an empty array raises
  \<open>ValueError\<close>. When the shifted field has maximum 0 every pixel is \<open>0/0\<close>, a nan that
  fails \<open>assert np.min(field) == 0\<close>.
\<close>

definition stacked_field ::
  "(nat \<Rightarrow> nat \<Rightarrow> nat \<Rightarrow> real) \<Rightarrow> real \<Rightarrow> nat \<times> nat \<Rightarrow> real list option \<Rightarrow> int list
     \<Rightarrow> error + real list list" where
  "stacked_field rnd vs siz weights scales =
     (case choose_weights weights scales vs of
        Inl e \<Rightarrow> Inl e
      | Inr ws \<Rightarrow>
         (case stacked_sum rnd siz scales ws of
            Inl e \<Rightarrow> Inl e
          | Inr field \<Rightarrow>
              if concat field = [] then Inl ValueError
              else
                let field1 = map (map (\<lambda>v. v - amin field)) field;
                    mx = amax field1
                in if mx = 0 then Inl AssertionError
                   else
                     let field2 = map (map (\<lambda>v. v / mx)) field1
                     in if amin field2 \<noteq> 0 then Inl AssertionError
                        else if amax field2 \<noteq> 1 then Inl AssertionError
                        else Inr field2))"

subsection \<open>\<open>_clip_field\<close>\<close>

text \<open>
  \<open>quant = np.quantile(field, clear_frac)\<close>; the output starts as all ones and is set
  to zero where \<open>field > quant\<close>; the assertion compares \<open>clear_frac\<close> with the mean of
  the output.
\<close>

definition clip_field :: "real list list \<Rightarrow> real \<Rightarrow> error + real list list" where
  "clip_field field clear_frac =
     (case quantile (concat field) clear_frac of
        Inl e \<Rightarrow> Inl e
      | Inr quant \<Rightarrow>
          let field_out = map (map (\<lambda>v. if v > quant then 0 else 1)) field
          in if isclose clear_frac
                  (sum_list (concat field_out) / real (length (concat field))) (1 / 10 ^ 3)
             then Inr field_out
             else Inl AssertionError)"

text \<open>The realized clear fraction of a mask: the number of pixels equal to one over
  the number of pixels.\<close>

definition clear_fraction :: "real list list \<Rightarrow> real" where
  "clear_fraction msk =
     real (length (filter (\<lambda>v. v = 1) (concat msk))) / real (length (concat msk))"

subsection \<open>\<open>_find_edges\<close>\<close>

text \<open>
  scipy.ndimage extends an array beyond its border by reflection (mode \<open>reflect\<close>, the
  default): \<open>d c b a | a b c d | d c b a\<close>.
\<close>

definition reflect_index :: "nat \<Rightarrow> int \<Rightarrow> nat" where
  "reflect_index n i =
     (let m = i mod (2 * int n)
      in if m < int n then nat m else nat (2 * int n - 1 - m))"

text \<open>
  \<open>correlate1d(input, weights)\<close> with origin 0:
  \<open>output[i] = \<Sum>k. weights[k] * input[i + k - len(weights) // 2]\<close>; along the last
  axis of a two-dimensional array it runs over every row, along axis 0 over every
  column.
\<close>

definition correlate1d :: "real list \<Rightarrow> real list \<Rightarrow> real list" where
  "correlate1d input weights =
     map (\<lambda>i. sum_list (map (\<lambda>k. weights ! k
                  * input ! reflect_index (length input) (int i + int k - int (length weights div 2)))
                [0..<length weights]))
       [0..<length input]"

definition correlate_axis1 :: "real list list \<Rightarrow> real list \<Rightarrow> real list list" where
  "correlate_axis1 input weights = map (\<lambda>row. correlate1d row weights) input"

definition correlate_axis0 :: "real list list \<Rightarrow> real list \<Rightarrow> real list list" where
  "correlate_axis0 input weights =
     map (\<lambda>i. map (\<lambda>j. sum_list (map (\<lambda>k. weights ! k
                  * input ! reflect_index (length input) (int i + int k - int (length weights div 2)) ! j)
                [0..<length weights]))
            [0..<length (input ! i)])
       [0..<length input]"

text \<open>
  \<open>scipy.ndimage.sobel(input)\<close> with its default \<open>axis=-1\<close>: the difference
  \<open>[-1, 0, 1]\<close> along the last axis, then the smoothing \<open>[1, 2, 1]\<close> along the other
  axis.
\<close>

definition sobel :: "real list list \<Rightarrow> real list list" where
  "sobel input = correlate_axis0 (correlate_axis1 input [-1, 0, 1]) [1, 2, 1]"

text \<open>
  \<open>uniform_filter(input, size)\<close>: the mean over a window of \<open>size\<close> pixels along
  axis 0, then along axis 1; an axis is filtered only when \<open>size > 1\<close>.
\<close>

definition uniform_filter :: "real list list \<Rightarrow> int \<Rightarrow> real list list" where
  "uniform_filter input sz =
     (if 1 < sz
      then let w = replicate (nat sz) (1 / real_of_int sz)
           in correlate_axis1 (correlate_axis0 input w) w
      else input)"

text \<open>
  \<open>_find_edges(base_mask, size)\<close>: \<open>sz\<close> is the argument \<open>size\<close>. The quantile of the
  positive smoothed values raises on an empty selection.
\<close>

definition find_edges ::
  "real list list \<Rightarrow> int \<Rightarrow> error + real list list \<times> bool list list" where
  "find_edges base_mask sz =
     (let edges = map (map abs) (sobel base_mask);
          smoothed = uniform_filter edges sz;
          smoothed0 = map (map (\<lambda>v. if v < 1 / 10 ^ 5 then 0 else v)) smoothed
      in case quantile (filter (\<lambda>v. v > 0) (concat smoothed0)) (1 / 2) of
           Inl e \<Rightarrow> Inl e
         | Inr baseline \<Rightarrow> Inr (edges, map (map (\<lambda>v. v > baseline)) smoothed0))"

text \<open>
  The operator the specification describes, for comparison: the Sobel derivative along
  both axes (\<open>sobel(input, axis=0)\<close> differentiates along axis 0 and smooths along
  the last axis), combined into the gradient magnitude.
\<close>

definition sobel_axis0 :: "real list list \<Rightarrow> real list list" where
  "sobel_axis0 input = correlate_axis1 (correlate_axis0 input [-1, 0, 1]) [1, 2, 1]"

definition spec_gradient_magnitude :: "real list list \<Rightarrow> real list list" where
  "spec_gradient_magnitude input =
     map2 (map2 (\<lambda>gx gy. sqrt (gx ^ 2 + gy ^ 2))) (sobel input) (sobel_axis0 input)"

subsection \<open>\<open>shift_mean_lave\<close>\<close>

text \<open>
  \<open>a[a > 1] = 1\<close> followed by \<open>a[a < 0] = 0\<close>, on one pixel; a nan passes both
  tests unchanged.
\<close>

definition clip01 :: "npfloat \<Rightarrow> npfloat" where
  "clip01 v = (let v1 = (if np_less (Fin 1) v then Fin 1 else v)
               in if np_less v1 (Fin 0) then Fin 0 else v1)"

text \<open>
  \<open>shift_mean_lave(field, ktmean, max_overshoot, ktmin, min_quant, max_quant)\<close>; the
  argument \<open>max_overshoot\<close> is not used by the source and is left out. The source has
  no test on a divisor: \<open>field_max - field_min\<close>, the count of cloudy pixels and
  \<open>current_cloud_mean\<close> are divided by as they are.
\<close>

definition shift_mean_lave ::
  "real list list \<Rightarrow> real \<Rightarrow> real \<Rightarrow> real \<Rightarrow> real \<Rightarrow> error + npfloat list list" where
  "shift_mean_lave field ktmean ktmin min_quant max_quant =
     (case quantile (filter (\<lambda>v. v < 1) (concat field)) max_quant of
        Inl e \<Rightarrow> Inl e
      | Inr field_max \<Rightarrow>
     (case quantile (filter (\<lambda>v. v < 1) (concat field)) min_quant of
        Inl e \<Rightarrow> Inl e
      | Inr field_min \<Rightarrow>
          let field_out = map (map (\<lambda>v. clip01
                (np_add (np_mul (np_div (Fin (v - field_min)) (Fin (field_max - field_min)))
                                (Fin (1 - ktmin)))
                        (Fin ktmin)))) field;
              tgtsum = real (length (concat field_out)) * ktmean;
              diff_sum = tgtsum - real (length (filter (\<lambda>v. np_eq v (Fin 1)) (concat field_out)));
              tgt_mean = np_div (Fin diff_sum)
                           (Fin (real (length (filter (\<lambda>v. np_less v (Fin 1)) (concat field_out)))));
              current_cloud_mean = np_mean (filter (\<lambda>v. np_less v (Fin 1)) (concat field_out))
          in Inr (if diff_sum > 0
                  then map (map (\<lambda>v. if \<not> np_eq v (Fin 1)
                                      then np_mul (np_div tgt_mean current_cloud_mean) v
                                      else v)) field_out
                  else field_out)))"

subsection \<open>\<open>lave_scaling_exact\<close>\<close>

text \<open>
  The stages of the source, one definition each. \<open>clouds3\<close> is the flipped field,
  clipped; \<open>ce\<close> is the cloud-enhancement field.
\<close>

definition lave_field_max :: "real list list \<Rightarrow> real list list \<Rightarrow> real \<Rightarrow> error + real" where
  "lave_field_max field clear_mask max_quant =
     quantile (map fst (filter (\<lambda>(v, c). c = 0) (zip (concat field) (concat clear_mask))))
       max_quant"

definition lave_clouds3 :: "real list list \<Rightarrow> real \<Rightarrow> real \<Rightarrow> npfloat list list" where
  "lave_clouds3 field kt1pct field_max =
     map (map (\<lambda>v. clip01 (np_sub (Fin 1) (np_div (Fin (v * (1 - kt1pct))) (Fin field_max)))))
       field"

definition lave_ce :: "npfloat list list \<Rightarrow> real \<Rightarrow> npfloat list list" where
  "lave_ce clouds3 ktmax =
     (let mean_c3 = np_mean (concat clouds3);
          nmin_c3 = np_div (np_amin (concat clouds3)) mean_c3;
          nrange_c3 = np_sub (np_div (np_amax (concat clouds3)) mean_c3) nmin_c3
      in map (map (\<lambda>v. np_add (Fin 1)
                (np_mul (np_div (np_sub (np_div v mean_c3) nmin_c3) nrange_c3) (Fin (ktmax - 1)))))
           clouds3)"

text \<open>
  \<open>diff_sum\<close>: the target sum, minus the sum of the clear mask, minus the sum of \<open>ce\<close>
  over the pixels that are edge and not clear.
\<close>

definition lave_diff_sum ::
  "real list list \<Rightarrow> real list list \<Rightarrow> bool list list \<Rightarrow> npfloat list list \<Rightarrow> real \<Rightarrow> npfloat" where
  "lave_diff_sum field clear_mask edge_mask ce ktmean =
     (let tgtsum = real (length (concat field)) * ktmean
      in np_sub (np_sub (Fin tgtsum) (Fin (sum_list (concat clear_mask))))
           (np_sum (map snd (filter (\<lambda>((c, e), v). e \<and> c = 0)
                      (zip (zip (concat clear_mask) (concat edge_mask)) (concat ce))))))"

text \<open>The values of \<open>clouds3\<close> on \<open>cloud_mask\<close>: the pixels neither clear nor edge.\<close>

definition lave_cloud_values ::
  "real list list \<Rightarrow> bool list list \<Rightarrow> npfloat list list \<Rightarrow> npfloat list" where
  "lave_cloud_values clear_mask edge_mask clouds3 =
     map snd (filter (\<lambda>((c, e), v). \<not> (c > 0 \<or> e))
               (zip (zip (concat clear_mask) (concat edge_mask)) (concat clouds3)))"

text \<open>
  \<open>lave_scaling_exact(field, clear_mask, edge_mask, ktmean, ktmax, kt1pct, max_quant)\<close>.
  The clear mask is an array of zeros and ones, the edge mask a boolean array. A mask
  of another shape than the field makes numpy raise (\<open>IndexError\<close> or \<open>ValueError\<close>,
  depending on the shapes); the model has one error for it. As in \<open>shift_mean_lave\<close>,
  no divisor is tested.
\<close>

definition lave_scaling_exact ::
  "real list list \<Rightarrow> real list list \<Rightarrow> bool list list \<Rightarrow> real \<Rightarrow> real \<Rightarrow> real \<Rightarrow> real
     \<Rightarrow> error + npfloat list list" where
  "lave_scaling_exact field clear_mask edge_mask ktmean ktmax kt1pct max_quant =
     (if \<not> same_shape field clear_mask \<or> \<not> same_shape field edge_mask then Inl IndexError
      else
        case lave_field_max field clear_mask max_quant of
          Inl e \<Rightarrow> Inl e
        | Inr field_max \<Rightarrow>
            let clouds3 = lave_clouds3 field kt1pct field_max;
                ce = lave_ce clouds3 ktmax;
                diff_sum = lave_diff_sum field clear_mask edge_mask ce ktmean;
                cloud_values = lave_cloud_values clear_mask edge_mask clouds3;
                tgt_cloud_mean = np_div diff_sum (Fin (real (length cloud_values)));
                current_cloud_mean = np_mean cloud_values;
                clouds4 = (if np_less (Fin 0) diff_sum
                           then map (map (\<lambda>v. np_mul (np_div tgt_cloud_mean current_cloud_mean) v))
                                  clouds3
                           else clouds3)
            in Inr (map (map (\<lambda>((c, e), (v4, vce)). if c > 0 then Fin 1 else if e then vce else v4))
                      (zip2d (zip2d clear_mask edge_mask) (zip2d clouds4 ce))))"

section \<open>Properties\<close>

subsection \<open>Auxiliary facts on lists\<close>

lemma concat_map_map: "concat (map (map g) xss) = map g (concat xss)"
  by (induction xss) simp_all

lemma sum_list_indicator:
  fixes P :: "real \<Rightarrow> bool"
  shows "sum_list (map (\<lambda>v. if P v then 0 else (1::real)) xs)
         = real (length (filter (\<lambda>v. \<not> P v) xs))"
  by (induction xs) simp_all

lemma count_ones_indicator:
  fixes P :: "real \<Rightarrow> bool"
  shows "length (filter (\<lambda>v. v = 1) (map (\<lambda>v. if P v then 0 else (1::real)) xs))
         = length (filter (\<lambda>v. \<not> P v) xs)"
  by (induction xs) simp_all

subsection \<open>Interpolation on the unit grid\<close>

lemma count_below_upt: "length (filter (\<lambda>k. k \<le> i) [0..<n]) = min n (Suc i)"
  by (induction n) auto

lemma prefix_count_holds:
  assumes down: "\<And>a b. a \<le> b \<Longrightarrow> P b \<Longrightarrow> P a"
  shows "i < length (filter P [0..<n]) \<Longrightarrow> P i"
proof (induction n)
  case 0
  then show ?case by simp
next
  case (Suc n)
  show ?case
  proof (cases "P n")
    case True
    have "i \<le> n"
    proof -
      have "length (filter P [0..<Suc n]) \<le> Suc n"
        using length_filter_le [of P "[0..<Suc n]"] by simp
      with Suc.prems show ?thesis by simp
    qed
    with True down show ?thesis by blast
  next
    case False
    with Suc show ?thesis by simp
  qed
qed

lemma prefix_count_stops:
  assumes down: "\<And>a b. a \<le> b \<Longrightarrow> P b \<Longrightarrow> P a"
  shows "length (filter P [0..<n]) < n \<Longrightarrow> \<not> P (length (filter P [0..<n]))"
proof (induction n)
  case 0
  then show ?case by simp
next
  case (Suc n)
  show ?case
  proof (cases "P n")
    case True
    have "\<forall>x\<in>set [0..<n]. P x"
      using True down [of _ n] by simp
    then have "filter P [0..<n] = [0..<n]"
      by (rule filter_True)
    with True Suc.prems show ?thesis by simp
  next
    case False
    show ?thesis
    proof (cases "length (filter P [0..<n]) < n")
      case True
      with Suc.IH False show ?thesis by simp
    next
      case f: False
      have "length (filter P [0..<n]) \<le> n"
        using length_filter_le [of P "[0..<n]"] by simp
      with f have "length (filter P [0..<n]) = n" by simp
      with False show ?thesis by simp
    qed
  qed
qed

lemma linspace01_length: "length (linspace01 n) = n"
  by (simp add: linspace01_def)

lemma linspace01_nth: "i < n \<Longrightarrow> linspace01 n ! i = real i / real (n - 1)"
  by (auto simp: linspace01_def)

lemma linspace01_count:
  assumes "2 \<le> n"
  shows "length (filter (\<lambda>g. g \<le> v) (linspace01 n))
         = length (filter (\<lambda>k. real k \<le> v * real (n - 1)) [0..<n])"
proof -
  have pos: "0 < real (n - 1)" using assms by simp
  have "filter (\<lambda>g. g \<le> v) (linspace01 n)
        = map (\<lambda>i. real i / real (n - 1)) (filter (\<lambda>k. real k / real (n - 1) \<le> v) [0..<n])"
    using assms by (simp add: linspace01_def filter_map comp_def)
  moreover have "(\<lambda>k. real k / real (n - 1) \<le> v) = (\<lambda>k. real k \<le> v * real (n - 1))"
    using pos by (simp add: pos_divide_le_eq)
  ultimately show ?thesis by simp
qed

lemma find_indices_cell:
  assumes n: "2 \<le> n" and v0: "0 \<le> v" and v1: "v \<le> 1"
  shows "\<exists>lo t. find_indices (linspace01 n) v = (lo, Suc lo, t)
            \<and> Suc lo < n \<and> 0 \<le> t \<and> t \<le> 1"
proof -
  define P where "P = (\<lambda>k. real k \<le> v * real (n - 1))"
  define k where "k = length (filter P [0..<n])"
  define lo where "lo = min (k - 1) (n - 2)"
  have pos: "0 < real (n - 1)" using n by simp
  have down: "\<And>a b. a \<le> b \<Longrightarrow> P b \<Longrightarrow> P a"
    by (simp add: P_def)
  have kn: "k \<le> n"
    using length_filter_le [of P "[0..<n]"] by (simp add: k_def)
  have "P 0" using v0 pos by (simp add: P_def)
  have k0: "0 < k"
  proof (rule ccontr)
    assume "\<not> 0 < k"
    then have "k = 0" by simp
    then have "length (filter P [0..<n]) < n" using n by (simp add: k_def)
    from prefix_count_stops [OF down this] \<open>k = 0\<close> \<open>P 0\<close> show False
      by (simp add: k_def)
  qed
  have lo_lt: "Suc lo < n" using n by (simp add: lo_def)
  have "lo < k" using k0 by (simp add: lo_def)
  then have "P lo" using prefix_count_holds [OF down] by (simp add: k_def)
  then have below: "real lo / real (n - 1) \<le> v"
    using pos by (simp add: P_def pos_divide_le_eq)
  have above: "v \<le> real (Suc lo) / real (n - 1)"
  proof (cases "k < n")
    case True
    then have "lo = k - 1" by (simp add: lo_def)
    with k0 have sk: "Suc lo = k" by simp
    from True have "\<not> P k" using prefix_count_stops [OF down] by (simp add: k_def)
    then have "v * real (n - 1) < real k" by (simp add: P_def)
    then have "v < real k / real (n - 1)" using pos by (simp add: pos_less_divide_eq)
    with sk show ?thesis by simp
  next
    case False
    with kn have "k = n" by simp
    then have "Suc lo = n - 1" using n by (simp add: lo_def)
    then have "real (Suc lo) / real (n - 1) = 1" using pos by simp
    with v1 show ?thesis by simp
  qed
  define t where "t = (v - real lo / real (n - 1)) / (real (Suc lo) / real (n - 1) - real lo / real (n - 1))"
  have den: "real (Suc lo) / real (n - 1) - real lo / real (n - 1) = 1 / real (n - 1)"
    by (simp add: add_divide_distrib)
  have t_eq: "t = (v - real lo / real (n - 1)) * real (n - 1)"
    unfolding t_def den by simp
  have t0: "0 \<le> t" using below pos by (simp add: t_eq)
  have "(v - real lo / real (n - 1)) \<le> real (Suc lo) / real (n - 1) - real lo / real (n - 1)"
    using above by (rule diff_right_mono)
  then have "(v - real lo / real (n - 1)) \<le> 1 / real (n - 1)"
    unfolding den .
  then have t1: "t \<le> 1"
    using pos by (simp add: t_eq pos_le_divide_eq)
  have "length (linspace01 n) \<noteq> 1" using n by (simp add: linspace01_length)
  moreover have "length (filter (\<lambda>g. g \<le> v) (linspace01 n)) = k"
    using linspace01_count [OF n] by (simp add: k_def P_def)
  ultimately have "find_indices (linspace01 n) v = (lo, Suc lo, t)"
    using lo_lt
    by (simp add: find_indices_def Let_def linspace01_length linspace01_nth lo_def t_def)
  with lo_lt t0 t1 show ?thesis by blast
qed

lemma find_indices_single: "find_indices (linspace01 (Suc 0)) v = (0, 0, 0)"
  by (simp add: find_indices_def linspace01_def)

lemma find_indices_at_node:
  assumes n: "2 \<le> n" and i: "i < n"
  shows "find_indices (linspace01 n) (linspace01 n ! i)
         = (if Suc i < n then (i, Suc i, 0) else (n - 2, n - 1, 1))"
proof -
  have pos: "0 < real (n - 1)" using n by simp
  have "(\<lambda>k. real k \<le> real i / real (n - 1) * real (n - 1)) = (\<lambda>k. k \<le> i)"
    using pos by simp
  then have cnt: "length (filter (\<lambda>g. g \<le> linspace01 n ! i) (linspace01 n)) = Suc i"
    using linspace01_count [OF n, of "linspace01 n ! i"] i
    by (simp add: linspace01_nth count_below_upt)
  show ?thesis
  proof (cases "Suc i < n")
    case True
    then have "min i (n - 2) = i" by simp
    with True n i cnt show ?thesis
      by (simp add: find_indices_def Let_def linspace01_length linspace01_nth)
  next
    case False
    with i have ieq: "Suc i = n" by simp
    have m: "min i (n - 2) = n - 2" using ieq by simp
    have s: "Suc (n - 2) = i" using n ieq by simp
    have lt: "n - 2 < n" using n by simp
    have a: "linspace01 n ! i = 1"
      using i ieq pos by (simp add: linspace01_nth)
    have b: "linspace01 n ! (n - 2) = real (n - 2) / real (n - 1)"
      using lt by (rule linspace01_nth)
    have "real (n - 2) < real (n - 1)" using n by simp
    then have "real (n - 2) / real (n - 1) \<noteq> 1" using pos by simp
    then have q: "(1 - real (n - 2) / real (n - 1)) / (1 - real (n - 2) / real (n - 1)) = 1"
      by simp
    have len: "length (linspace01 n) \<noteq> 1" using n by (simp add: linspace01_length)
    have "find_indices (linspace01 n) (linspace01 n ! i) = (n - 2, Suc (n - 2), 1)"
      using len cnt [unfolded a] n by (simp add: find_indices_def Let_def linspace01_length m s a b q)
    moreover have "Suc (n - 2) = n - 1" using n by simp
    ultimately show ?thesis using False by simp
  qed
qed

lemma random_grid_nth: "i < r \<Longrightarrow> j < c \<Longrightarrow> random_grid rnd r c ! i ! j = rnd i j"
  by (simp add: random_grid_def)

lemma random_grid_concat_mem:
  "i < r \<Longrightarrow> j < c \<Longrightarrow> rnd i j \<in> set (concat (random_grid rnd r c))"
  by (force simp: random_grid_def)

lemma linspace01_hd: "1 \<le> n \<Longrightarrow> hd (linspace01 n) = 0"
  by (cases n) (simp_all add: linspace01_def upt_rec)

lemma linspace01_last: "1 \<le> n \<Longrightarrow> last (linspace01 n) = (if n = 1 then 0 else 1)"
proof -
  assume n: "1 \<le> n"
  then have ne: "linspace01 n \<noteq> []" by (auto simp: linspace01_def)
  have "last (linspace01 n) = linspace01 n ! (n - 1)"
    using last_conv_nth [OF ne] by (simp add: linspace01_length)
  also have "\<dots> = real (n - 1) / real (n - 1)"
    using n by (simp add: linspace01_nth)
  finally show ?thesis using n by auto
qed

lemma linspace01_range:
  assumes "v \<in> set (linspace01 n)"
  shows "0 \<le> v \<and> v \<le> (if n = 1 then 0 else 1)"
proof -
  from assms obtain i where i: "i < n" and v: "v = linspace01 n ! i"
    by (auto simp: in_set_conv_nth linspace01_length)
  show ?thesis
  proof (cases "n = 1")
    case True
    with i v show ?thesis by (simp add: linspace01_def)
  next
    case False
    with i have pos: "0 < real (n - 1)" by simp
    have "real i \<le> real (n - 1)" using i by simp
    then have "real i / real (n - 1) \<le> 1"
      using pos by (simp add: pos_divide_le_eq)
    with i v False show ?thesis by (simp add: linspace01_nth)
  qed
qed

lemma linspace01_in_bounds:
  assumes "1 \<le> n"
  shows "\<not> list_ex (\<lambda>p. p < hd (linspace01 n) \<or> last (linspace01 n) < p) (linspace01 n)"
proof -
  have "\<not> (p < hd (linspace01 n) \<or> last (linspace01 n) < p)" if "p \<in> set (linspace01 n)" for p
    using linspace01_range [OF that] assms
    by (simp add: linspace01_hd linspace01_last not_less)
  then show ?thesis by (simp add: list_ex_iff)
qed

lemma find_indices_node:
  assumes n: "1 \<le> n" and i: "i < n"
  shows "\<exists>lo hi t. find_indices (linspace01 n) (linspace01 n ! i) = (lo, hi, t)
            \<and> ((t = 0 \<and> lo = i) \<or> (t = 1 \<and> hi = i))"
proof (cases "n = 1")
  case True
  with i show ?thesis by (simp add: find_indices_def linspace01_def)
next
  case False
  with n have "2 \<le> n" by simp
  from find_indices_at_node [OF this i] show ?thesis
    using i by (cases "Suc i < n") auto
qed

lemma evaluate_linear_2d_node:
  assumes r: "1 \<le> r" and c: "1 \<le> c" and i: "i < r" and j: "j < c"
  shows "evaluate_linear_2d (linspace01 r) (linspace01 c) vals
           (linspace01 r ! i) (linspace01 c ! j) = vals ! i ! j"
proof -
  from find_indices_node [OF r i] obtain lo0 hi0 t0
    where f0: "find_indices (linspace01 r) (linspace01 r ! i) = (lo0, hi0, t0)"
      and c0: "(t0 = 0 \<and> lo0 = i) \<or> (t0 = 1 \<and> hi0 = i)" by blast
  from find_indices_node [OF c j] obtain lo1 hi1 t1
    where f1: "find_indices (linspace01 c) (linspace01 c ! j) = (lo1, hi1, t1)"
      and c1: "(t1 = 0 \<and> lo1 = j) \<or> (t1 = 1 \<and> hi1 = j)" by blast
  from c0 c1 show ?thesis
    by (auto simp: evaluate_linear_2d_def f0 f1)
qed

text \<open>
  C9: when \<open>rand_size\<close> equals \<open>final_size\<close> (both sizes positive),
  \<open>_random_at_scale\<close> returns the drawn grid itself as the interpolated field:
  interpolating at the grid points is the identity.
\<close>

theorem random_at_scale_same_size_identity:
  assumes r: "1 \<le> r" and c: "1 \<le> c"
  shows "random_at_scale rnd (r, c) (r, c) = Inr (random_grid rnd r c, random_grid rnd r c)"
proof -
  let ?x = "linspace01 r" and ?y = "linspace01 c" and ?g = "random_grid rnd r c"
  have ne: "?x \<noteq> []" "?y \<noteq> []"
    using r c by (auto simp: linspace01_def)
  have inx: "\<not> list_ex (\<lambda>p. p < hd ?x \<or> last ?x < p) ?x"
    using r by (rule linspace01_in_bounds)
  have iny: "\<not> list_ex (\<lambda>q. q < hd ?y \<or> last ?y < q) ?y"
    using c by (rule linspace01_in_bounds)
  have "map (\<lambda>p. map (\<lambda>q. evaluate_linear_2d ?x ?y ?g p q) ?y) ?x = ?g"
  proof (rule nth_equalityI)
    show "length (map (\<lambda>p. map (\<lambda>q. evaluate_linear_2d ?x ?y ?g p q) ?y) ?x) = length ?g"
      by (simp add: linspace01_length random_grid_def)
  next
    fix i assume "i < length (map (\<lambda>p. map (\<lambda>q. evaluate_linear_2d ?x ?y ?g p q) ?y) ?x)"
    then have i: "i < r" by (simp add: linspace01_length)
    show "map (\<lambda>p. map (\<lambda>q. evaluate_linear_2d ?x ?y ?g p q) ?y) ?x ! i = ?g ! i"
    proof (rule nth_equalityI)
      show "length (map (\<lambda>p. map (\<lambda>q. evaluate_linear_2d ?x ?y ?g p q) ?y) ?x ! i) = length (?g ! i)"
        using i by (simp add: linspace01_length random_grid_def)
    next
      fix j assume "j < length (map (\<lambda>p. map (\<lambda>q. evaluate_linear_2d ?x ?y ?g p q) ?y) ?x ! i)"
      then have j: "j < c" using i by (simp add: linspace01_length)
      show "map (\<lambda>p. map (\<lambda>q. evaluate_linear_2d ?x ?y ?g p q) ?y) ?x ! i ! j = ?g ! i ! j"
        using i j evaluate_linear_2d_node [OF r c i j, of ?g]
        by (simp add: linspace01_length)
    qed
  qed
  with ne inx iny show ?thesis
    by (simp add: random_at_scale_def regular_grid_linear_def Let_def)
qed

theorem random_at_scale_same_size_identity_witness:
  "(1::nat) \<le> 2 \<and> (1::nat) \<le> 3
   \<and> random_at_scale sample_draws (2, 3) (2, 3)
       = Inr (random_grid sample_draws 2 3, random_grid sample_draws 2 3)"
proof -
  have h1: "(1::nat) \<le> 2" and h2: "(1::nat) \<le> 3" by simp_all
  from random_at_scale_same_size_identity [OF h1 h2, of sample_draws] h1 h2
  show ?thesis by blast
qed

subsection \<open>Interpolated values are convex combinations\<close>

lemma convex_lower:
  fixes a b m t :: real
  assumes "m \<le> a" "m \<le> b" "0 \<le> t" "t \<le> 1"
  shows "m \<le> a * (1 - t) + b * t"
proof -
  have "m * (1 - t) \<le> a * (1 - t)" using assms by (intro mult_right_mono) simp_all
  moreover have "m * t \<le> b * t" using assms by (intro mult_right_mono) simp_all
  moreover have "m = m * (1 - t) + m * t" by (simp add: algebra_simps)
  ultimately show ?thesis by linarith
qed

lemma convex_upper:
  fixes a b M t :: real
  assumes "a \<le> M" "b \<le> M" "0 \<le> t" "t \<le> 1"
  shows "a * (1 - t) + b * t \<le> M"
proof -
  have "a * (1 - t) \<le> M * (1 - t)" using assms by (intro mult_right_mono) simp_all
  moreover have "b * t \<le> M * t" using assms by (intro mult_right_mono) simp_all
  moreover have "M = M * (1 - t) + M * t" by (simp add: algebra_simps)
  ultimately show ?thesis by linarith
qed

lemma bilinear_regroup:
  fixes a b c d s t :: real
  shows "a * (1 - s) * (1 - t) + b * (1 - s) * t + c * s * (1 - t) + d * s * t
         = (a * (1 - t) + b * t) * (1 - s) + (c * (1 - t) + d * t) * s"
  by (simp add: algebra_simps)

lemma bilinear_bounds:
  fixes a b c d s t m M :: real
  assumes "m \<le> a" "m \<le> b" "m \<le> c" "m \<le> d" "a \<le> M" "b \<le> M" "c \<le> M" "d \<le> M"
    and "0 \<le> s" "s \<le> 1" "0 \<le> t" "t \<le> 1"
  shows "m \<le> a * (1 - s) * (1 - t) + b * (1 - s) * t + c * s * (1 - t) + d * s * t"
    and "a * (1 - s) * (1 - t) + b * (1 - s) * t + c * s * (1 - t) + d * s * t \<le> M"
proof -
  have l1: "m \<le> a * (1 - t) + b * t" and l2: "m \<le> c * (1 - t) + d * t"
    using assms by (simp_all add: convex_lower)
  have u1: "a * (1 - t) + b * t \<le> M" and u2: "c * (1 - t) + d * t \<le> M"
    using assms by (simp_all add: convex_upper)
  show "m \<le> a * (1 - s) * (1 - t) + b * (1 - s) * t + c * s * (1 - t) + d * s * t"
    unfolding bilinear_regroup using l1 l2 assms by (intro convex_lower) simp_all
  show "a * (1 - s) * (1 - t) + b * (1 - s) * t + c * s * (1 - t) + d * s * t \<le> M"
    unfolding bilinear_regroup using u1 u2 assms by (intro convex_upper) simp_all
qed

lemma find_indices_valid:
  assumes n: "1 \<le> n" and v0: "hd (linspace01 n) \<le> v" and v1: "v \<le> last (linspace01 n)"
  shows "\<exists>lo hi t. find_indices (linspace01 n) v = (lo, hi, t)
            \<and> lo < n \<and> hi < n \<and> 0 \<le> t \<and> t \<le> 1"
proof (cases "n = 1")
  case True
  then show ?thesis by (simp add: find_indices_single)
next
  case False
  with n have n2: "2 \<le> n" by simp
  from v0 v1 n False have "0 \<le> v" "v \<le> 1"
    by (simp_all add: linspace01_hd linspace01_last)
  from find_indices_cell [OF n2 this] show ?thesis by auto
qed

lemma evaluate_linear_2d_bounds:
  assumes r: "1 \<le> r" and c: "1 \<le> c"
    and p: "hd (linspace01 r) \<le> p" "p \<le> last (linspace01 r)"
    and q: "hd (linspace01 c) \<le> q" "q \<le> last (linspace01 c)"
    and lo: "\<And>i j. i < r \<Longrightarrow> j < c \<Longrightarrow> m \<le> rnd i j"
    and hi: "\<And>i j. i < r \<Longrightarrow> j < c \<Longrightarrow> rnd i j \<le> M"
  shows "m \<le> evaluate_linear_2d (linspace01 r) (linspace01 c) (random_grid rnd r c) p q"
    and "evaluate_linear_2d (linspace01 r) (linspace01 c) (random_grid rnd r c) p q \<le> M"
proof -
  from find_indices_valid [OF r p] obtain i0 i0' y0
    where f0: "find_indices (linspace01 r) p = (i0, i0', y0)"
      and b0: "i0 < r" "i0' < r" "0 \<le> y0" "y0 \<le> 1" by blast
  from find_indices_valid [OF c q] obtain i1 i1' y1
    where f1: "find_indices (linspace01 c) q = (i1, i1', y1)"
      and b1: "i1 < c" "i1' < c" "0 \<le> y1" "y1 \<le> 1" by blast
  have ev: "evaluate_linear_2d (linspace01 r) (linspace01 c) (random_grid rnd r c) p q
        = rnd i0 i1 * (1 - y0) * (1 - y1) + rnd i0 i1' * (1 - y0) * y1
          + rnd i0' i1 * y0 * (1 - y1) + rnd i0' i1' * y0 * y1"
    using b0 b1 by (simp add: evaluate_linear_2d_def f0 f1 random_grid_nth)
  show "m \<le> evaluate_linear_2d (linspace01 r) (linspace01 c) (random_grid rnd r c) p q"
    unfolding ev using b0 b1 lo hi by (intro bilinear_bounds(1) [where M = M]) simp_all
  show "evaluate_linear_2d (linspace01 r) (linspace01 c) (random_grid rnd r c) p q \<le> M"
    unfolding ev using b0 b1 lo hi by (intro bilinear_bounds(2) [where m = m]) simp_all
qed

lemma linspace01_fits:
  assumes r: "1 \<le> r" and ok: "r = 1 \<longrightarrow> R \<le> 1" and p: "p \<in> set (linspace01 R)"
  shows "hd (linspace01 r) \<le> p \<and> p \<le> last (linspace01 r)"
proof -
  from linspace01_range [OF p] have b: "0 \<le> p" "p \<le> (if R = 1 then 0 else 1)" by simp_all
  show ?thesis
  proof (cases "r = 1")
    case True
    with ok have "R \<le> 1" by simp
    moreover from p have "R \<noteq> 0" by (cases "R = 0") (simp_all add: linspace01_def)
    ultimately have "R = 1" by simp
    with b r show ?thesis by (simp add: linspace01_hd linspace01_last)
  next
    case False
    from b have "p \<le> 1" by (simp split: if_splits)
    with b False r show ?thesis by (simp add: linspace01_hd linspace01_last)
  qed
qed

text \<open>
  C10: for every valid pair of sizes (the coarse sizes positive, and a coarse axis of
  one point only where the final axis has at most one point), \<open>_random_at_scale\<close>
  returns, and every element of the interpolated field lies between the minimum and
  the maximum of the drawn grid; when the draws are in \<open>[0, 1)\<close>, so is every element
  of the interpolated field.
\<close>

theorem random_at_scale_within_grid_range:
  assumes r: "1 \<le> r" and c: "1 \<le> c" and okr: "r = 1 \<longrightarrow> R \<le> 1" and okc: "c = 1 \<longrightarrow> C \<le> 1"
  shows "\<exists>random_new.
           random_at_scale rnd (r, c) (R, C) = Inr (random_grid rnd r c, random_new)
           \<and> (\<forall>row \<in> set random_new. \<forall>v \<in> set row.
                 Min (set (concat (random_grid rnd r c))) \<le> v
                 \<and> v \<le> Max (set (concat (random_grid rnd r c))))
           \<and> ((\<forall>i < r. \<forall>j < c. 0 \<le> rnd i j \<and> rnd i j < 1)
                \<longrightarrow> (\<forall>row \<in> set random_new. \<forall>v \<in> set row. 0 \<le> v \<and> v < 1))"
proof -
  let ?x = "linspace01 r" and ?y = "linspace01 c" and ?g = "random_grid rnd r c"
  let ?xn = "linspace01 R" and ?yn = "linspace01 C"
  let ?out = "map (\<lambda>p. map (\<lambda>q. evaluate_linear_2d ?x ?y ?g p q) ?yn) ?xn"
  have ne: "?x \<noteq> []" "?y \<noteq> []"
    using r c by (auto simp: linspace01_def)
  have inx: "\<not> list_ex (\<lambda>p. p < hd ?x \<or> last ?x < p) ?xn"
    using linspace01_fits [OF r okr] by (auto simp: list_ex_iff not_less)
  have iny: "\<not> list_ex (\<lambda>q. q < hd ?y \<or> last ?y < q) ?yn"
    using linspace01_fits [OF c okc] by (auto simp: list_ex_iff not_less)
  have ret: "random_at_scale rnd (r, c) (R, C) = Inr (?g, ?out)"
    using ne inx iny by (simp add: random_at_scale_def regular_grid_linear_def Let_def)
  have fin: "finite (set (concat ?g))" by simp
  have lo: "Min (set (concat ?g)) \<le> rnd i j" if "i < r" "j < c" for i j
    using that fin by (intro Min_le random_grid_concat_mem)
  have hi: "rnd i j \<le> Max (set (concat ?g))" if "i < r" "j < c" for i j
    using that fin by (intro Max_ge random_grid_concat_mem)
  have range: "Min (set (concat ?g)) \<le> v \<and> v \<le> Max (set (concat ?g))"
    if row: "row \<in> set ?out" and v: "v \<in> set row" for row v
  proof -
    from row obtain p where p: "p \<in> set ?xn"
      and roweq: "row = map (\<lambda>q. evaluate_linear_2d ?x ?y ?g p q) ?yn" by auto
    from v roweq obtain q where q: "q \<in> set ?yn"
      and veq: "v = evaluate_linear_2d ?x ?y ?g p q" by auto
    from linspace01_fits [OF r okr p] have pb: "hd ?x \<le> p" "p \<le> last ?x" by simp_all
    from linspace01_fits [OF c okc q] have qb: "hd ?y \<le> q" "q \<le> last ?y" by simp_all
    from evaluate_linear_2d_bounds [OF r c pb qb, of "Min (set (concat ?g))" rnd "Max (set (concat ?g))"]
      lo hi veq
    show ?thesis by simp
  qed
  have unit: "0 \<le> v \<and> v < 1"
    if u: "\<forall>i < r. \<forall>j < c. 0 \<le> rnd i j \<and> rnd i j < 1"
      and row: "row \<in> set ?out" and v: "v \<in> set row" for row v
  proof -
    have mem: "rnd 0 0 \<in> set (concat ?g)"
      using r c by (intro random_grid_concat_mem) simp_all
    have nonempty: "set (concat ?g) \<noteq> {}"
    proof
      assume "set (concat ?g) = {}"
      with mem show False by (simp only: empty_iff)
    qed
    have all: "0 \<le> w \<and> w < 1" if "w \<in> set (concat ?g)" for w
      using that u by (auto simp: random_grid_def)
    have "Min (set (concat ?g)) \<in> set (concat ?g)" "Max (set (concat ?g)) \<in> set (concat ?g)"
      using fin nonempty by (rule Min_in, rule Max_in)
    then have "0 \<le> Min (set (concat ?g))" "Max (set (concat ?g)) < 1"
      using all by blast+
    with range [OF row v] show ?thesis by linarith
  qed
  from ret range unit show ?thesis by blast
qed


theorem random_at_scale_within_grid_range_witness:
  "(1::nat) \<le> 2 \<and> (2::nat) \<noteq> 1
   \<and> (\<exists>random_new.
           random_at_scale sample_draws (2, 2) (3, 3) = Inr (random_grid sample_draws 2 2, random_new)
           \<and> (\<forall>row \<in> set random_new. \<forall>v \<in> set row.
                 Min (set (concat (random_grid sample_draws 2 2))) \<le> v
                 \<and> v \<le> Max (set (concat (random_grid sample_draws 2 2))))
           \<and> (\<forall>row \<in> set random_new. \<forall>v \<in> set row. 0 \<le> v \<and> v < 1))"
proof -
  have h1: "(1::nat) \<le> 2" and h2: "(2::nat) = 1 \<longrightarrow> (3::nat) \<le> 1" by simp_all
  have draws: "\<forall>i < 2. \<forall>j < 2. 0 \<le> sample_draws i j \<and> sample_draws i j < 1"
  proof (intro allI impI)
    fix i j :: nat
    assume "i < 2" "j < 2"
    then have "i * 2 + j < 4" by simp
    then have "real (i * 2 + j) < real 4" by (simp only: of_nat_less_iff)
    then show "0 \<le> sample_draws i j \<and> sample_draws i j < 1"
      by (simp add: sample_draws_def)
  qed
  have h3: "(2::nat) \<noteq> 1" by simp
  from random_at_scale_within_grid_range [OF h1 h1 h2 h2, of sample_draws] draws h1 h3
  show ?thesis by blast
qed

subsection \<open>\<open>stacked_field\<close>: the normalization\<close>

lemma image_mono_Min:
  fixes f :: "real \<Rightarrow> real"
  assumes "mono f" "xs \<noteq> []"
  shows "Min (set (map f xs)) = f (Min (set xs))"
  using mono_Min_commute [OF assms(1), of "set xs"] assms(2) by simp

lemma image_mono_Max:
  fixes f :: "real \<Rightarrow> real"
  assumes "mono f" "xs \<noteq> []"
  shows "Max (set (map f xs)) = f (Max (set xs))"
  using mono_Max_commute [OF assms(1), of "set xs"] assms(2) by simp

lemma amin_map:
  assumes "mono f" "concat field \<noteq> []"
  shows "amin (map (map f) field) = f (amin field)"
  using image_mono_Min [OF assms] by (simp add: amin_def concat_map_map)

lemma amax_map:
  assumes "mono f" "concat field \<noteq> []"
  shows "amax (map (map f) field) = f (amax field)"
  using image_mono_Max [OF assms] by (simp add: amax_def concat_map_map)

lemma amin_le_amax:
  assumes "concat field \<noteq> []"
  shows "amin field \<le> amax field"
proof -
  define v where "v = hd (concat field)"
  have v: "v \<in> set (concat field)"
    unfolding v_def using assms by (rule hd_in_set)
  have "Min (set (concat field)) \<le> v" using v by (intro Min_le) simp_all
  moreover have "v \<le> Max (set (concat field))" using v by (intro Max_ge) simp_all
  ultimately show ?thesis by (simp add: amin_def amax_def)
qed

text \<open>
  C2: for every non-degenerate combination of inputs, that is, whenever the weights
  are available, every layer is generated and the accumulated field is non-empty and
  not constant, \<open>stacked_field\<close> returns a field whose minimum is exactly 0 and whose
  maximum is exactly 1: both assertions of the source hold.
\<close>

theorem stacked_field_normalized:
  assumes w: "choose_weights weights scales vs = Inr ws"
    and s: "stacked_sum rnd siz scales ws = Inr field"
    and ne: "concat field \<noteq> []"
    and nc: "amin field \<noteq> amax field"
  shows "\<exists>out. stacked_field rnd vs siz weights scales = Inr out
           \<and> amin out = 0 \<and> amax out = 1"
proof -
  define field1 where "field1 = map (map (\<lambda>v. v - amin field)) field"
  define mx where "mx = amax field1"
  define field2 where "field2 = map (map (\<lambda>v. v / mx)) field1"
  have ne1: "concat field1 \<noteq> []" using ne by (simp add: field1_def concat_map_map)
  have m1: "mono (\<lambda>v :: real. v - amin field)" by (simp add: mono_def)
  have min1: "amin field1 = 0"
    unfolding field1_def using amin_map [OF m1 ne] by simp
  have mx_eq: "mx = amax field - amin field"
    unfolding mx_def field1_def using amax_map [OF m1 ne] by simp
  have pos: "0 < mx"
    using amin_le_amax [OF ne] nc by (simp add: mx_eq)
  have m2: "mono (\<lambda>v :: real. v / mx)"
    using pos by (simp add: mono_def divide_right_mono)
  have min2: "amin field2 = 0"
    unfolding field2_def using amin_map [OF m2 ne1] min1 by simp
  have max2: "amax field2 = 1"
    unfolding field2_def using amax_map [OF m2 ne1] pos by (simp add: mx_def)
  have "stacked_field rnd vs siz weights scales = Inr field2"
    using w s ne pos min2 max2
    by (simp add: stacked_field_def Let_def field1_def [symmetric] mx_def [symmetric]
        field2_def [symmetric])
  with min2 max2 show ?thesis by blast
qed

lemma replicate_2_2: "replicate 2 (replicate 2 (0::real)) = [[0, 0], [0, 0]]"
  by (simp add: numeral_2_eq_2)

lemma stacked_sum_sample:
  "stacked_sum (\<lambda>k. sample_draws) (2, 2) [1] [1] = Inr [[0, 1 / 4], [1 / 2, 3 / 4]]"
  by (simp add: stacked_sum_def coarse_def sample_draws_def random_at_scale_def random_grid_def
      linspace01_def regular_grid_linear_def evaluate_linear_2d_def find_indices_def Let_def
      upt_rec replicate_2_2)

theorem stacked_field_normalized_witness:
  "choose_weights (Some [1]) [1] 40 = Inr [1]
   \<and> stacked_sum (\<lambda>k. sample_draws) (2, 2) [1] [1] = Inr [[0, 1 / 4], [1 / 2, 3 / 4]]
   \<and> concat [[0, 1 / 4], [1 / 2, 3 / 4 :: real]] \<noteq> []
   \<and> amin [[0, 1 / 4], [1 / 2, 3 / 4]] \<noteq> amax [[0, 1 / 4], [1 / 2, 3 / 4]]
   \<and> (\<exists>out. stacked_field (\<lambda>k. sample_draws) 40 (2, 2) (Some [1]) [1] = Inr out
           \<and> amin out = 0 \<and> amax out = 1)"
proof -
  have w: "choose_weights (Some [1]) [1] 40 = Inr [1]"
    by (simp add: choose_weights_def)
  have ne: "concat [[0, 1 / 4], [1 / 2, 3 / 4 :: real]] \<noteq> []" by simp
  have nc: "amin [[0, 1 / 4], [1 / 2, 3 / 4]] \<noteq> amax [[0, 1 / 4], [1 / 2, 3 / 4]]"
    by (simp add: amin_def amax_def)
  from stacked_field_normalized [OF w stacked_sum_sample ne nc] w stacked_sum_sample ne nc
  show ?thesis by blast
qed

subsection \<open>\<open>_clip_field\<close>: which pixels are clear\<close>

text \<open>
  C1, as stated, fails: at the field \<open>[[0, 1]]\<close> with clear fraction \<open>1/2\<close> the quantile
  is \<open>1/2\<close>, the function returns \<open>[[1, 0]]\<close>, and the pixel above the quantile is marked
  0, not 1. The mask the claim describes, \<open>[[0, 1]]\<close>, is not what is returned.
\<close>

theorem clip_field_polarity_counterexample:
  "quantile (concat [[0, 1]]) (1 / 2) = Inr (1 / 2)
   \<and> [[0, 1]] ! 0 ! 1 > (1 / 2 :: real)
   \<and> clip_field [[0, 1]] (1 / 2) = Inr [[1, 0]]
   \<and> [[1, 0]] ! 0 ! 1 = (0 :: real)
   \<and> clip_field [[0, 1]] (1 / 2) \<noteq> Inr [[0, 1]]"
  by (simp add: clip_field_def quantile_def isclose_def Let_def)

text \<open>
  C1, amended: whenever \<open>_clip_field\<close> returns a mask, the threshold \<open>q\<close> is the
  \<open>f\<close>-quantile of the pixel values, the mask has the shape of the field, and a pixel
  is marked cloudy (0) exactly when its value is strictly greater than \<open>q\<close>; every other
  pixel is marked clear (1).
\<close>

theorem clip_field_marks_above_quantile_cloudy:
  assumes "clip_field field f = Inr msk"
  shows "\<exists>q. quantile (concat field) f = Inr q
           \<and> length msk = length field
           \<and> (\<forall>i < length field. length (msk ! i) = length (field ! i)
                \<and> (\<forall>j < length (field ! i).
                      msk ! i ! j = (if field ! i ! j > q then 0 else 1)))"
proof (cases "quantile (concat field) f")
  case (Inl e)
  with assms show ?thesis by (simp add: clip_field_def)
next
  case (Inr q)
  with assms have "msk = map (map (\<lambda>v. if v > q then 0 else 1)) field"
    by (simp add: clip_field_def Let_def split: if_splits)
  with Inr show ?thesis by simp
qed

theorem clip_field_marks_above_quantile_cloudy_witness:
  "clip_field [[0, 1]] (1 / 2) = Inr [[1, 0]]
   \<and> (\<exists>q. quantile (concat [[0, 1]]) (1 / 2) = Inr q
           \<and> length [[1, 0 :: real]] = length [[0, 1 :: real]]
           \<and> (\<forall>i < length [[0, 1 :: real]]. length ([[1, 0 :: real]] ! i) = length ([[0, 1 :: real]] ! i)
                \<and> (\<forall>j < length ([[0, 1 :: real]] ! i).
                      [[1, 0]] ! i ! j = (if [[0, 1]] ! i ! j > q then 0 else (1 :: real)))))"
proof -
  have h: "clip_field [[0, 1]] (1 / 2) = Inr [[1, 0]]"
    by (simp add: clip_field_def quantile_def isclose_def Let_def)
  from clip_field_marks_above_quantile_cloudy [OF h] h show ?thesis by blast
qed

subsection \<open>\<open>_clip_field\<close>: the tolerance of the assertion\<close>

text \<open>
  C7, as stated, fails: for the one-pixel field \<open>[[0]]\<close> and the clear fraction
  \<open>0.998999995\<close> the function returns the mask \<open>[[1]]\<close>, whose realized clear fraction
  is 1. The distance to the target is \<open>0.001000005\<close>, more than one thousandth of the
  target and more than one thousandth of the realized fraction: the absolute term
  \<open>1e-8\<close> of \<open>np.isclose\<close> lets it pass.
\<close>

theorem clip_field_tolerance_counterexample:
  "clip_field [[0]] (998999995 / 1000000000) = Inr [[1]]
   \<and> clear_fraction [[1]] = 1
   \<and> \<not> \<bar>clear_fraction [[1]] - 998999995 / 1000000000\<bar>
         \<le> 1 / 10 ^ 3 * (998999995 / 1000000000)
   \<and> \<not> \<bar>clear_fraction [[1]] - 998999995 / 1000000000\<bar>
         \<le> 1 / 10 ^ 3 * clear_fraction [[1]]"
  by (simp add: clip_field_def quantile_def isclose_def clear_fraction_def Let_def)

text \<open>
  C7, amended: for every non-empty field and clear fraction \<open>f\<close> in \<open>(0, 1)\<close>,
  \<open>_clip_field\<close> either returns a mask whose realized clear fraction \<open>r\<close> (pixels equal
  to 1 over all pixels) satisfies \<open>|f - r| \<le> 1e-8 + 1e-3 * |r|\<close>, the test of
  \<open>np.isclose\<close>, or fails its assertion; it returns no mask outside that tolerance.
\<close>

theorem clip_field_returns_within_isclose_or_fails:
  assumes "0 < f" and "f < 1" and "concat field \<noteq> []"
  shows "(\<exists>msk. clip_field field f = Inr msk
            \<and> \<bar>f - clear_fraction msk\<bar> \<le> 1 / 10 ^ 8 + 1 / 10 ^ 3 * \<bar>clear_fraction msk\<bar>)
         \<or> clip_field field f = Inl AssertionError"
proof -
  from assms obtain q where q: "quantile (concat field) f = Inr q"
    by (auto simp: quantile_def Let_def)
  define out where "out = map (map (\<lambda>v. if v > q then 0 else (1::real))) field"
  have flat: "concat out = map (\<lambda>v. if v > q then 0 else 1) (concat field)"
    by (simp add: out_def concat_map_map)
  have "sum_list (concat out) = real (length (filter (\<lambda>v. v = 1) (concat out)))"
    by (simp only: flat sum_list_indicator count_ones_indicator)
  moreover have "length (concat out) = length (concat field)"
    by (simp add: flat)
  ultimately have frac: "sum_list (concat out) / real (length (concat field)) = clear_fraction out"
    by (simp add: clear_fraction_def)
  show ?thesis
  proof (cases "isclose f (clear_fraction out) (1 / 10 ^ 3)")
    case True
    then have "clip_field field f = Inr out"
      using q frac by (simp add: clip_field_def Let_def out_def)
    moreover from True
    have "\<bar>f - clear_fraction out\<bar> \<le> 1 / 10 ^ 8 + 1 / 10 ^ 3 * \<bar>clear_fraction out\<bar>"
      by (simp add: isclose_def)
    ultimately show ?thesis by blast
  next
    case False
    then have "clip_field field f = Inl AssertionError"
      using q frac by (simp add: clip_field_def Let_def out_def)
    then show ?thesis by simp
  qed
qed

theorem clip_field_returns_within_isclose_or_fails_witness:
  "(0::real) < 1 / 2 \<and> (1 / 2 :: real) < 1 \<and> concat [[0, 1 :: real]] \<noteq> []
   \<and> clip_field [[0, 1]] (1 / 2) \<noteq> Inl AssertionError
   \<and> (\<exists>msk. clip_field [[0, 1]] (1 / 2) = Inr msk
         \<and> \<bar>1 / 2 - clear_fraction msk\<bar> \<le> 1 / 10 ^ 8 + 1 / 10 ^ 3 * \<bar>clear_fraction msk\<bar>)"
proof -
  have h1: "(0::real) < 1 / 2" and h2: "(1 / 2 :: real) < 1"
    and h3: "concat [[0, 1 :: real]] \<noteq> []"
    by simp_all
  have ok: "clip_field [[0, 1]] (1 / 2) \<noteq> Inl AssertionError"
    by (simp add: clip_field_def quantile_def isclose_def Let_def)
  from clip_field_returns_within_isclose_or_fails [OF h1 h2 h3] ok h1 h2 h3
  show ?thesis by blast
qed

subsection \<open>\<open>_find_edges\<close>: the edge operator\<close>

lemma reflect_index_less: "0 < n \<Longrightarrow> reflect_index n x < n"
  by (auto simp: reflect_index_def Let_def)

lemma reflect_index_inside: "i < n \<Longrightarrow> reflect_index n (int i) = i"
  by (simp add: reflect_index_def Let_def)

lemma correlate1d_length: "length (correlate1d input weights) = length input"
  by (simp add: correlate1d_def)

lemma correlate1d_diff_nth:
  assumes "j < length row"
  shows "correlate1d row [-1, 0, 1] ! j
         = row ! reflect_index (length row) (int j + 1) - row ! reflect_index (length row) (int j - 1)"
  using assms by (simp add: correlate1d_def add.commute)

lemma sobel_nth:
  assumes rect: "\<forall>row \<in> set input. length row = C"
    and i: "i < length input" and j: "j < C"
  shows "sobel input ! i ! j =
           (input ! reflect_index (length input) (int i - 1) ! reflect_index C (int j + 1)
            - input ! reflect_index (length input) (int i - 1) ! reflect_index C (int j - 1))
         + 2 * (input ! i ! reflect_index C (int j + 1) - input ! i ! reflect_index C (int j - 1))
         + (input ! reflect_index (length input) (int i + 1) ! reflect_index C (int j + 1)
            - input ! reflect_index (length input) (int i + 1) ! reflect_index C (int j - 1))"
proof -
  let ?R = "length input"
  let ?D = "correlate_axis1 input [-1, 0, 1]"
  have R0: "0 < ?R" using i by auto
  have lenD: "length ?D = ?R" by (simp add: correlate_axis1_def)
  have rowlen: "length (input ! r) = C" if "r < ?R" for r
    using rect that by simp
  have Drow: "?D ! r ! j = input ! r ! reflect_index C (int j + 1)
                          - input ! r ! reflect_index C (int j - 1)" if "r < ?R" for r
    using that j rowlen [OF that] correlate1d_diff_nth [of j "input ! r"]
    by (simp add: correlate_axis1_def)
  have Dlen: "length (?D ! i) = C"
    using i rowlen [OF i] by (simp add: correlate_axis1_def correlate1d_length)
  have rm: "reflect_index ?R (int i - 1) < ?R" and rp: "reflect_index ?R (int i + 1) < ?R"
    using R0 by (simp_all add: reflect_index_less)
  have "sobel input ! i ! j
        = ?D ! reflect_index ?R (int i - 1) ! j + 2 * ?D ! reflect_index ?R (int i) ! j
          + ?D ! reflect_index ?R (int i + 1) ! j"
    using i j Dlen by (simp add: sobel_def correlate_axis0_def lenD add.commute)
  then show ?thesis
    using Drow [OF rm] Drow [OF rp] Drow [OF i] reflect_index_inside [OF i]
    by simp
qed

lemma sobel_sample: "sobel [[0, 0, 0], [0, 0, 0], [1, 1, 0]] = [[0, 0, 0], [0, - 1, - 1], [0, - 3, - 3]]"
  by code_simp

lemma sobel_axis0_sample:
  "sobel_axis0 [[0, 0, 0], [0, 0, 0], [1, 1, 0]] = [[0, 0, 0], [4, 3, 1], [4, 3, 1]]"
  by code_simp

lemma find_edges_sample:
  "find_edges [[0, 0, 0], [0, 0, 0], [1, 1, 0]] 3
   = Inr ([[0, 0, 0], [0, 1, 1], [0, 3, 3]],
          [[False, False, False], [False, True, True], [False, True, True]])"
  by code_simp

lemma sqrt_16: "sqrt (16::real) = 4"
  using real_sqrt_abs [of 4] by simp


text \<open>
  C5, as stated, fails: \<open>sobel(base_mask)\<close> is called with its default axis and
  differentiates along the last axis only. For the mask
  \<open>[[0, 0, 0], [0, 0, 0], [1, 1, 0]]\<close> the function returns the edge map
  \<open>[[0, 0, 0], [0, 1, 1], [0, 3, 3]]\<close>: the pixel in row 1, column 0 is 0, although the
  derivative along axis 0 is 4 there and the gradient magnitude over both axes is 4.
\<close>

theorem find_edges_both_axes_counterexample:
  "find_edges [[0, 0, 0], [0, 0, 0], [1, 1, 0]] 3
     = Inr ([[0, 0, 0], [0, 1, 1], [0, 3, 3]],
            [[False, False, False], [False, True, True], [False, True, True]])
   \<and> sobel_axis0 [[0, 0, 0], [0, 0, 0], [1, 1, 0]] ! 1 ! 0 = 4
   \<and> spec_gradient_magnitude [[0, 0, 0], [0, 0, 0], [1, 1, 0]] ! 1 ! 0 = 4
   \<and> [[0, 0, 0], [0, 1, 1], [0, 3, 3]] ! 1 ! 0 = (0::real)
   \<and> [[0, 0, 0], [0, 1, 1], [0, 3, 3]] \<noteq> spec_gradient_magnitude [[0, 0, 0], [0, 0, 0], [1, 1, 0]]"
proof -
  have g: "spec_gradient_magnitude [[0, 0, 0], [0, 0, 0], [1, 1, 0]] ! 1 ! 0 = 4"
    by (simp add: spec_gradient_magnitude_def sobel_sample sobel_axis0_sample sqrt_16)
  have "[[0, 0, 0], [0, 1, 1], [0, 3, 3]] ! 1 ! 0 = (0::real)" by simp
  with g have ne: "[[0, 0, 0], [0, 1, 1], [0, 3, 3]]
                   \<noteq> spec_gradient_magnitude [[0, 0, 0], [0, 0, 0], [1, 1, 0]]"
    by (metis zero_neq_numeral)
  show ?thesis
    using find_edges_sample g ne by (simp add: sobel_axis0_sample)
qed


text \<open>
  C5, amended: for every rectangular input mask on which \<open>_find_edges\<close> returns, the
  edge map is the absolute value of the Sobel derivative along the last axis only: at
  row \<open>i\<close> and column \<open>j\<close>, the difference between columns \<open>j + 1\<close> and \<open>j - 1\<close>,
  summed over rows \<open>i - 1\<close>, \<open>i\<close>, \<open>i + 1\<close> with weights 1, 2, 1, indices reflected at
  the border. No derivative along axis 0 enters and no magnitudes are combined.
\<close>

theorem find_edges_is_last_axis_sobel:
  assumes ret: "find_edges base_mask sz = Inr (edges, smoothed_binary)"
    and rect: "\<forall>row \<in> set base_mask. length row = C"
    and i: "i < length base_mask" and j: "j < C"
  shows "edges ! i ! j =
           \<bar>(base_mask ! reflect_index (length base_mask) (int i - 1) ! reflect_index C (int j + 1)
              - base_mask ! reflect_index (length base_mask) (int i - 1) ! reflect_index C (int j - 1))
            + 2 * (base_mask ! i ! reflect_index C (int j + 1)
                   - base_mask ! i ! reflect_index C (int j - 1))
            + (base_mask ! reflect_index (length base_mask) (int i + 1) ! reflect_index C (int j + 1)
               - base_mask ! reflect_index (length base_mask) (int i + 1) ! reflect_index C (int j - 1))\<bar>"
proof -
  from ret have e: "edges = map (map abs) (sobel base_mask)"
    by (auto simp: find_edges_def Let_def split: sum.splits)
  have len: "length (sobel base_mask) = length base_mask"
    by (simp add: sobel_def correlate_axis0_def correlate_axis1_def)
  have rowlen: "length (sobel base_mask ! i) = C"
    using i rect by (simp add: sobel_def correlate_axis0_def correlate_axis1_def correlate1d_length)
  have "edges ! i ! j = \<bar>sobel base_mask ! i ! j\<bar>"
    using i j len rowlen by (simp add: e)
  then show ?thesis
    using sobel_nth [OF rect i j] by simp
qed


theorem find_edges_is_last_axis_sobel_witness:
  "find_edges [[0, 0, 0], [0, 0, 0], [1, 1, 0]] 3
     = Inr ([[0, 0, 0], [0, 1, 1], [0, 3, 3]],
            [[False, False, False], [False, True, True], [False, True, True]])
   \<and> length [0, 0, 0 :: real] = 3 \<and> length [1, 1, 0 :: real] = 3
   \<and> (1::nat) < length [[0, 0, 0], [0, 0, 0], [1, 1, 0 :: real]] \<and> (1::nat) < 3
   \<and> [[0, 0, 0], [0, 1, 1], [0, 3, 3]] ! 1 ! 1 = (1::real)"
proof -
  have h2: "\<forall>row \<in> set [[0, 0, 0], [0, 0, 0], [1, 1, 0 :: real]]. length row = 3" by simp
  have h3: "(1::nat) < length [[0, 0, 0], [0, 0, 0], [1, 1, 0 :: real]]" by simp
  have h4: "(1::nat) < 3" by simp
  from find_edges_is_last_axis_sobel [OF find_edges_sample h2 h3 h4] find_edges_sample h2 h3 h4
  show ?thesis by simp
qed

subsection \<open>Shapes and the quantile\<close>

lemma quantile_returns:
  assumes "0 \<le> q" "q \<le> 1" "a \<noteq> []"
  shows "\<exists>v. quantile a q = Inr v"
  using assms by (simp add: quantile_def Let_def)

lemma same_shape_length: "same_shape A B \<Longrightarrow> length A = length B"
  unfolding same_shape_def by (rule map_eq_imp_length_eq)

lemma same_shape_row:
  assumes "same_shape A B" "i < length A"
  shows "length (A ! i) = length (B ! i)"
proof -
  from assms(1) have "map length A ! i = map length B ! i"
    by (simp add: same_shape_def)
  with assms same_shape_length [OF assms(1)] show ?thesis by simp
qed

lemma same_shape_map: "same_shape (map (map f) A) A"
  by (simp add: same_shape_def comp_def)

lemma zip2d_nth:
  assumes "same_shape A B" "i < length A" "j < length (A ! i)"
  shows "zip2d A B ! i ! j = (A ! i ! j, B ! i ! j)"
  using assms same_shape_length [OF assms(1)] same_shape_row [OF assms(1) assms(2)]
  by (simp add: zip2d_def)

lemma zip2d_length:
  assumes "same_shape A B"
  shows "length (zip2d A B) = length A"
  using same_shape_length [OF assms] by (simp add: zip2d_def)

lemma zip2d_row_length:
  assumes "same_shape A B" "i < length A"
  shows "length (zip2d A B ! i) = length (A ! i)"
  using assms same_shape_length [OF assms(1)] same_shape_row [OF assms]
  by (simp add: zip2d_def)

lemma same_shape_sym: "same_shape A B \<Longrightarrow> same_shape B A"
  by (simp add: same_shape_def)

lemma same_shape_trans: "same_shape A B \<Longrightarrow> same_shape B C \<Longrightarrow> same_shape A C"
  by (simp add: same_shape_def)

lemma same_shape_zip2d:
  assumes "same_shape A B"
  shows "same_shape (zip2d A B) A"
  unfolding same_shape_def
proof (rule nth_equalityI)
  show "length (map length (zip2d A B)) = length (map length A)"
    using zip2d_length [OF assms] by simp
next
  fix i assume "i < length (map length (zip2d A B))"
  then have i: "i < length A" using zip2d_length [OF assms] by simp
  then show "map length (zip2d A B) ! i = map length A ! i"
    using zip2d_row_length [OF assms i] zip2d_length [OF assms] by simp
qed


lemma quantile_cases:
  assumes "quantile a q = Inr v"
  obtains lo hi g where
    "0 \<le> q" "q \<le> 1" "a \<noteq> []"
    "lo = nat \<lfloor>real (length a - 1) * q\<rfloor>"
    "hi = min (lo + 1) (length a - 1)"
    "g = real (length a - 1) * q - real lo"
    "v = sort a ! lo + (sort a ! hi - sort a ! lo) * g"
    "lo \<le> hi" "hi < length a" "0 \<le> g" "g < 1"
    "sort a ! lo \<le> sort a ! hi"
proof -
  from assms have q: "0 \<le> q" "q \<le> 1" and ne: "a \<noteq> []"
    by (auto simp: quantile_def split: if_splits)
  let ?h = "real (length a - 1) * q"
  define lo where "lo = nat \<lfloor>?h\<rfloor>"
  define hi where "hi = min (lo + 1) (length a - 1)"
  define g where "g = ?h - real lo"
  have n1: "1 \<le> length a" using ne by (cases a) simp_all
  have h0: "0 \<le> ?h" using q by simp
  have hn: "?h \<le> real (length a - 1)"
    using q mult_left_le [of q "real (length a - 1)"] by simp
  have fl0: "0 \<le> \<lfloor>?h\<rfloor>" using h0 by (simp only: zero_le_floor)
  have lo_real: "real lo = of_int \<lfloor>?h\<rfloor>" using fl0 by (simp only: lo_def of_nat_nat)
  have "\<lfloor>?h\<rfloor> \<le> int (length a - 1)" using hn by (simp add: floor_le_iff)
  then have lo_n: "lo \<le> length a - 1" using fl0 unfolding lo_def by linarith
  have lohi: "lo \<le> hi" using lo_n by (simp add: hi_def)
  have hin: "hi < length a" using n1 by (simp add: hi_def)
  have g0: "0 \<le> g" unfolding g_def lo_real by (simp only: diff_ge_0_iff_ge of_int_floor_le)
  have g1: "g < 1" unfolding g_def lo_real by linarith
  have v: "v = sort a ! lo + (sort a ! hi - sort a ! lo) * g"
    using assms q ne unfolding quantile_def Let_def lo_def hi_def g_def by simp
  have srt: "sort a ! lo \<le> sort a ! hi"
    using lohi hin by (intro sorted_nth_mono) simp_all
  show ?thesis
    using q ne lo_def hi_def g_def v lohi hin g0 g1 srt by (rule that)
qed

lemma quantile_between:
  assumes "quantile a q = Inr v"
  shows "\<exists>lo hi. lo \<le> hi \<and> hi < length a \<and> sort a ! lo \<le> v \<and> v \<le> sort a ! hi"
proof -
  from assms obtain lo hi g where
    v: "v = sort a ! lo + (sort a ! hi - sort a ! lo) * g"
    and b: "lo \<le> hi" "hi < length a" "0 \<le> g" "g < 1" "sort a ! lo \<le> sort a ! hi"
    by (rule quantile_cases)
  have d: "0 \<le> sort a ! hi - sort a ! lo" using b by simp
  have "0 \<le> (sort a ! hi - sort a ! lo) * g" using d b by simp
  moreover have "(sort a ! hi - sort a ! lo) * g \<le> (sort a ! hi - sort a ! lo) * 1"
    using d b by (intro mult_left_mono) simp_all
  ultimately have "sort a ! lo \<le> v \<and> v \<le> sort a ! hi" using v by simp
  with b show ?thesis by blast
qed

lemma quantile_below:
  assumes "quantile a q = Inr v" and "\<forall>x \<in> set a. x < c"
  shows "v < c"
proof -
  from quantile_between [OF assms(1)] obtain hi where
    b: "hi < length a" "v \<le> sort a ! hi" by blast
  have "sort a ! hi \<in> set (sort a)" using b by (intro nth_mem) simp
  then have "sort a ! hi < c" using assms(2) by simp
  with b show ?thesis by simp
qed

lemma quantile_mono:
  assumes le: "q1 \<le> q2" and v1: "quantile a q1 = Inr v1" and v2: "quantile a q2 = Inr v2"
  shows "v1 \<le> v2"
proof -
  from v1 obtain lo1 hi1 g1 where
    q1: "0 \<le> q1"
    and lo1: "lo1 = nat \<lfloor>real (length a - 1) * q1\<rfloor>"
    and hi1: "hi1 = min (lo1 + 1) (length a - 1)"
    and g1: "g1 = real (length a - 1) * q1 - real lo1"
    and e1: "v1 = sort a ! lo1 + (sort a ! hi1 - sort a ! lo1) * g1"
    and b1: "lo1 \<le> hi1" "hi1 < length a" "0 \<le> g1" "g1 < 1" "sort a ! lo1 \<le> sort a ! hi1"
    by (rule quantile_cases)
  from v2 obtain lo2 hi2 g2 where
    lo2: "lo2 = nat \<lfloor>real (length a - 1) * q2\<rfloor>"
    and hi2: "hi2 = min (lo2 + 1) (length a - 1)"
    and g2: "g2 = real (length a - 1) * q2 - real lo2"
    and e2: "v2 = sort a ! lo2 + (sort a ! hi2 - sort a ! lo2) * g2"
    and b2: "lo2 \<le> hi2" "hi2 < length a" "0 \<le> g2" "g2 < 1" "sort a ! lo2 \<le> sort a ! hi2"
    by (rule quantile_cases)
  have hle: "real (length a - 1) * q1 \<le> real (length a - 1) * q2"
    using le by (intro mult_left_mono) simp_all
  then have lole: "lo1 \<le> lo2"
    unfolding lo1 lo2 by (intro nat_mono floor_mono)
  show ?thesis
  proof (cases "lo1 = lo2")
    case True
    then have hh: "hi1 = hi2" by (simp add: hi1 hi2)
    have gg: "g1 \<le> g2" using hle True by (simp add: g1 g2)
    have "(sort a ! hi2 - sort a ! lo2) * g1 \<le> (sort a ! hi2 - sort a ! lo2) * g2"
      using gg b2 by (intro mult_left_mono) simp_all
    then show ?thesis using True hh by (simp add: e1 e2)
  next
    case False
    with lole have lt: "lo1 < lo2" by simp
    have lo2n: "lo2 \<le> length a - 1" using b2 by simp
    have "hi1 = lo1 + 1" using lt lo2n by (simp add: hi1)
    then have hl: "hi1 \<le> lo2" using lt by simp
    have lo2len: "lo2 < length a" using b2 by simp
    have up1: "v1 \<le> sort a ! hi1"
    proof -
      have "(sort a ! hi1 - sort a ! lo1) * g1 \<le> (sort a ! hi1 - sort a ! lo1) * 1"
        using b1 by (intro mult_left_mono) simp_all
      then show ?thesis by (simp add: e1)
    qed
    have mid: "sort a ! hi1 \<le> sort a ! lo2"
      using hl lo2len by (intro sorted_nth_mono) simp_all
    have low2: "sort a ! lo2 \<le> v2"
    proof -
      have "0 \<le> (sort a ! hi2 - sort a ! lo2) * g2" using b2 by simp
      then show ?thesis by (simp add: e2)
    qed
    from up1 mid low2 show ?thesis by linarith
  qed
qed

lemma clip01_above: "1 < w \<Longrightarrow> clip01 (Fin w) = Fin 1"
  by (simp add: clip01_def)

lemma shift_mean_lave_keeps_clear_general:
  assumes fmax: "quantile (filter (\<lambda>v. v < 1) (concat field)) max_quant = Inr field_max"
    and fmin: "quantile (filter (\<lambda>v. v < 1) (concat field)) min_quant = Inr field_min"
    and quants: "min_quant \<le> max_quant"
    and ktmin: "ktmin < 1"
    and distinct: "field_max \<noteq> field_min"
    and i: "i < length field" and j: "j < length (field ! i)"
    and one: "field ! i ! j = 1"
  shows "\<exists>out. shift_mean_lave field ktmean ktmin min_quant max_quant = Inr out
           \<and> out ! i ! j = Fin 1"
proof -
  have "field_min \<le> field_max" using quants fmin fmax by (rule quantile_mono)
  with distinct have lt: "field_min < field_max" by simp
  have max1: "field_max < 1" using fmax by (rule quantile_below) simp
  define x where "x = (1 - field_min) / (field_max - field_min)"
  have x1: "1 < x" using lt max1 by (simp add: x_def)
  have "0 < (x - 1) * (1 - ktmin)" using x1 ktmin by simp
  then have w: "1 < x * (1 - ktmin) + ktmin" by (simp add: algebra_simps)
  define G where "G = (\<lambda>v. clip01
                (np_add (np_mul (np_div (Fin (v - field_min)) (Fin (field_max - field_min)))
                                (Fin (1 - ktmin)))
                        (Fin ktmin)))"
  have G1: "G 1 = Fin 1"
    using lt w by (simp add: G_def x_def clip01_above)
  define field_out where "field_out = map (map G) field"
  have fo: "field_out ! i ! j = Fin 1"
    using i j one G1 by (simp add: field_out_def)
  have len: "i < length field_out" "j < length (field_out ! i)"
    using i j by (simp_all add: field_out_def)
  have keep: "(if c then map (map (\<lambda>v. if \<not> np_eq v (Fin 1) then F v else v)) field_out
               else field_out) ! i ! j = Fin 1" for c F
    using len fo by (simp add: np_eq_def)
  define D where "D = (real (length (concat field_out)) * ktmean
        - real (length (filter (\<lambda>v. np_eq v (Fin 1)) (concat field_out))) > 0)"
  define R where "R = np_div
      (np_div (Fin (real (length (concat field_out)) * ktmean
                    - real (length (filter (\<lambda>v. np_eq v (Fin 1)) (concat field_out)))))
              (Fin (real (length (filter (\<lambda>v. np_less v (Fin 1)) (concat field_out))))))
      (np_mean (filter (\<lambda>v. np_less v (Fin 1)) (concat field_out)))"
  have eq: "shift_mean_lave field ktmean ktmin min_quant max_quant
        = Inr (if D then map (map (\<lambda>v. if \<not> np_eq v (Fin 1) then np_mul R v else v)) field_out
               else field_out)"
    unfolding shift_mean_lave_def fmax fmin Let_def D_def R_def field_out_def G_def
    by (simp only: sum.case)
  show ?thesis
    unfolding eq using keep [of D "np_mul R"] by simp
qed


subsection \<open>\<open>shift_mean_lave\<close>: clear pixels stay clear\<close>

text \<open>
  C4: with the default parameters (\<open>ktmin = 0.2\<close>, \<open>min_quant = 0.005\<close>,
  \<open>max_quant = 0.995\<close>) and any \<open>ktmean\<close>, for every field whose pixels below 1 give
  distinct quantiles \<open>field_min\<close> and \<open>field_max\<close>, \<open>shift_mean_lave\<close> returns, and
  every pixel that is 1 in the input is exactly 1 in the output: the rescale sends it
  above 1, the clip brings it back to 1, and the final multiplication skips it.
\<close>

theorem shift_mean_lave_keeps_clear_pixels:
  assumes "quantile (filter (\<lambda>v. v < 1) (concat field)) (995 / 1000) = Inr field_max"
    and "quantile (filter (\<lambda>v. v < 1) (concat field)) (5 / 1000) = Inr field_min"
    and "field_max \<noteq> field_min"
    and "i < length field" and "j < length (field ! i)"
    and "field ! i ! j = 1"
  shows "\<exists>out. shift_mean_lave field ktmean (1 / 5) (5 / 1000) (995 / 1000) = Inr out
           \<and> out ! i ! j = Fin 1"
  using assms by (intro shift_mean_lave_keeps_clear_general) simp_all

theorem shift_mean_lave_keeps_clear_pixels_witness:
  "quantile (filter (\<lambda>v. v < 1) (concat [[0, 1 / 4, 1 / 2, 1]])) (995 / 1000) = Inr (199 / 400)
   \<and> quantile (filter (\<lambda>v. v < 1) (concat [[0, 1 / 4, 1 / 2, 1]])) (5 / 1000) = Inr (1 / 400)
   \<and> (199 / 400 :: real) \<noteq> 1 / 400
   \<and> (0::nat) < length [[0, 1 / 4, 1 / 2, 1 :: real]]
   \<and> (3::nat) < length ([[0, 1 / 4, 1 / 2, 1 :: real]] ! 0)
   \<and> [[0, 1 / 4, 1 / 2, 1 :: real]] ! 0 ! 3 = 1
   \<and> (\<exists>out. shift_mean_lave [[0, 1 / 4, 1 / 2, 1]] (9 / 10) (1 / 5) (5 / 1000) (995 / 1000) = Inr out
          \<and> out ! 0 ! 3 = Fin 1)"
proof -
  have h1: "quantile (filter (\<lambda>v. v < 1) (concat [[0, 1 / 4, 1 / 2, 1]])) (995 / 1000)
            = Inr (199 / 400)"
    by code_simp
  have h2: "quantile (filter (\<lambda>v. v < 1) (concat [[0, 1 / 4, 1 / 2, 1]])) (5 / 1000)
            = Inr (1 / 400)"
    by code_simp
  have h3: "(199 / 400 :: real) \<noteq> 1 / 400" by simp
  have h4: "(0::nat) < length [[0, 1 / 4, 1 / 2, 1 :: real]]" by simp
  have h5: "(3::nat) < length ([[0, 1 / 4, 1 / 2, 1 :: real]] ! 0)" by simp
  have h6: "[[0, 1 / 4, 1 / 2, 1 :: real]] ! 0 ! 3 = 1" by simp
  from shift_mean_lave_keeps_clear_pixels [OF h1 h2 h3 h4 h5 h6, of "9 / 10"] h1 h2 h3 h4 h5 h6
  show ?thesis by blast
qed

subsection \<open>\<open>shift_mean_lave\<close>: values above one\<close>

lemma shift_mean_lave_sample:
  "shift_mean_lave [[0, 1 / 4, 1 / 2, 1]] (9 / 10) (1 / 5) (5 / 1000) (995 / 1000)
   = Inr [[Fin (388 / 985), Fin (1188 / 985), Fin 1, Fin 1]]"
  by code_simp

text \<open>
  C8: \<open>shift_mean_lave\<close> does not clip after the final multiplication, so some input
  field and some target \<open>ktmean\<close> in \<open>[0, 1]\<close> give a returned field with a pixel
  strictly greater than 1 (default parameters; the field \<open>[[0, 1/4, 1/2, 1]]\<close> with
  \<open>ktmean = 0.9\<close> gives the pixel \<open>1188/985\<close>).
\<close>

theorem shift_mean_lave_exceeds_one:
  "\<exists>field ktmean out i j.
      0 \<le> ktmean \<and> ktmean \<le> 1
      \<and> shift_mean_lave field ktmean (1 / 5) (5 / 1000) (995 / 1000) = Inr out
      \<and> i < length out \<and> j < length (out ! i)
      \<and> np_less (Fin 1) (out ! i ! j)"
proof -
  have "(0::real) \<le> 9 / 10 \<and> (9 / 10 :: real) \<le> 1
      \<and> shift_mean_lave [[0, 1 / 4, 1 / 2, 1]] (9 / 10) (1 / 5) (5 / 1000) (995 / 1000)
          = Inr [[Fin (388 / 985), Fin (1188 / 985), Fin 1, Fin 1]]
      \<and> (0::nat) < length [[Fin (388 / 985), Fin (1188 / 985), Fin 1, Fin 1]]
      \<and> (1::nat) < length ([[Fin (388 / 985), Fin (1188 / 985), Fin 1, Fin 1]] ! 0)
      \<and> np_less (Fin 1) ([[Fin (388 / 985), Fin (1188 / 985), Fin 1, Fin 1]] ! 0 ! 1)"
    using shift_mean_lave_sample by simp
  then show ?thesis by blast
qed


subsection \<open>The remapping functions test no divisor\<close>

text \<open>
  C6, as stated, fails: the source has no test on a divisor and no error of that kind.
  When \<open>field_max = field_min\<close> (the field \<open>[[1/2, 1/2]]\<close>, whose pixels below 1 are
  \<open>[1/2, 1/2]\<close>), \<open>shift_mean_lave\<close> divides by zero and returns a field of nan;
  when \<open>field_max = 0\<close>, \<open>lave_scaling_exact\<close> does the same; and when no pixel is
  plain cloud, \<open>lave_scaling_exact\<close> divides by the pixel count 0 and
  still returns an ordinary field.
\<close>

theorem remap_zero_divisor_counterexample:
  "quantile [1 / 2, 1 / 2] (995 / 1000) = Inr (1 / 2)
   \<and> quantile [1 / 2, 1 / 2] (5 / 1000) = Inr (1 / 2)
   \<and> shift_mean_lave [[1 / 2, 1 / 2]] (9 / 10) (1 / 5) (5 / 1000) (995 / 1000) = Inr [[NaN, NaN]]
   \<and> lave_field_max [[0, 0]] [[0, 0]] (99 / 100) = Inr 0
   \<and> lave_scaling_exact [[0, 0]] [[0, 0]] [[False, False]] (1 / 2) (14 / 10) (2 / 10) (99 / 100)
       = Inr [[NaN, NaN]]
   \<and> length (lave_cloud_values [[1, 0]] [[False, True]] (lave_clouds3 [[0, 1]] (2 / 10) 1)) = 0
   \<and> lave_scaling_exact [[0, 1]] [[1, 0]] [[False, True]] (1 / 2) (14 / 10) (2 / 10) (99 / 100)
       = Inr [[Fin 1, Fin 1]]"
  by code_simp


text \<open>
  C6, amended: \<open>shift_mean_lave\<close> and \<open>lave_scaling_exact\<close> test no divisor.
  Whenever the quantile arguments are in \<open>[0, 1]\<close>, the pixels the quantile is taken
  over are not empty and the masks have the shape of the field, both functions return
  a field, also when \<open>field_max\<close> or a denominator is zero; the divisions are then
  carried out by the floating-point rules and give inf or nan.
\<close>

theorem remap_returns_without_divisor_test:
  "(0 \<le> min_quant \<and> min_quant \<le> 1 \<and> 0 \<le> max_quant \<and> max_quant \<le> 1
      \<and> filter (\<lambda>v. v < 1) (concat field) \<noteq> []
     \<longrightarrow> (\<exists>out. shift_mean_lave field ktmean ktmin min_quant max_quant = Inr out))
   \<and> (same_shape field clear_mask \<and> same_shape field edge_mask
      \<and> 0 \<le> max_quant' \<and> max_quant' \<le> 1
      \<and> filter (\<lambda>(v, c). c = 0) (zip (concat field) (concat clear_mask)) \<noteq> []
     \<longrightarrow> (\<exists>out. lave_scaling_exact field clear_mask edge_mask ktmean ktmax kt1pct max_quant'
                  = Inr out))"
proof (intro conjI impI)
  assume a: "0 \<le> min_quant \<and> min_quant \<le> 1 \<and> 0 \<le> max_quant \<and> max_quant \<le> 1
      \<and> filter (\<lambda>v. v < 1) (concat field) \<noteq> []"
  from a quantile_returns [of max_quant "filter (\<lambda>v. v < 1) (concat field)"]
  obtain fmax where fmax: "quantile (filter (\<lambda>v. v < 1) (concat field)) max_quant = Inr fmax"
    by blast
  from a quantile_returns [of min_quant "filter (\<lambda>v. v < 1) (concat field)"]
  obtain fmin where fmin: "quantile (filter (\<lambda>v. v < 1) (concat field)) min_quant = Inr fmin"
    by blast
  show "\<exists>out. shift_mean_lave field ktmean ktmin min_quant max_quant = Inr out"
    by (simp add: shift_mean_lave_def fmax fmin Let_def)
next
  assume b: "same_shape field clear_mask \<and> same_shape field edge_mask
      \<and> 0 \<le> max_quant' \<and> max_quant' \<le> 1
      \<and> filter (\<lambda>(v, c). c = 0) (zip (concat field) (concat clear_mask)) \<noteq> []"
  then have "map fst (filter (\<lambda>(v, c). c = 0) (zip (concat field) (concat clear_mask))) \<noteq> []"
    by simp
  with b quantile_returns [of max_quant'
      "map fst (filter (\<lambda>(v, c). c = 0) (zip (concat field) (concat clear_mask)))"]
  obtain fm where fm: "lave_field_max field clear_mask max_quant' = Inr fm"
    unfolding lave_field_max_def by blast
  show "\<exists>out. lave_scaling_exact field clear_mask edge_mask ktmean ktmax kt1pct max_quant' = Inr out"
    using b by (simp add: lave_scaling_exact_def fm Let_def)
qed


theorem remap_returns_without_divisor_test_witness:
  "(0::real) \<le> 5 / 1000 \<and> (5 / 1000 :: real) \<le> 1 \<and> (0::real) \<le> 995 / 1000
   \<and> (995 / 1000 :: real) \<le> 1
   \<and> filter (\<lambda>v. v < 1) (concat [[0, 0 :: real]]) \<noteq> []
   \<and> (\<exists>out. shift_mean_lave [[0, 0]] (1 / 2) (1 / 5) (5 / 1000) (995 / 1000) = Inr out)
   \<and> same_shape [[0, 0 :: real]] [[0, 0 :: real]] \<and> same_shape [[0, 0 :: real]] [[False, False]]
   \<and> (0::real) \<le> 99 / 100 \<and> (99 / 100 :: real) \<le> 1
   \<and> filter (\<lambda>(v, c). c = 0) (zip (concat [[0, 0 :: real]]) (concat [[0, 0 :: real]])) \<noteq> []
   \<and> (\<exists>out. lave_scaling_exact [[0, 0]] [[0, 0]] [[False, False]] (1 / 2) (14 / 10) (2 / 10) (99 / 100)
              = Inr out)"
proof -
  have h1: "(0::real) \<le> 5 / 1000 \<and> (5 / 1000 :: real) \<le> 1 \<and> (0::real) \<le> 995 / 1000
      \<and> (995 / 1000 :: real) \<le> 1
      \<and> filter (\<lambda>v. v < 1) (concat [[0, 0 :: real]]) \<noteq> []"
    by simp
  have h2: "same_shape [[0, 0 :: real]] [[0, 0 :: real]] \<and> same_shape [[0, 0 :: real]] [[False, False]]
      \<and> (0::real) \<le> 99 / 100 \<and> (99 / 100 :: real) \<le> 1
      \<and> filter (\<lambda>(v, c). c = 0) (zip (concat [[0, 0 :: real]]) (concat [[0, 0 :: real]])) \<noteq> []"
    by (simp add: same_shape_def)
  from remap_returns_without_divisor_test
    [of "5 / 1000" "995 / 1000" "[[0, 0]]" "1 / 2" "1 / 5" "[[0, 0]]" "[[False, False]]"
        "99 / 100" "14 / 10" "2 / 10"] h1 h2
  show ?thesis by blast
qed

subsection \<open>\<open>lave_scaling_exact\<close>: when the flipped field is scaled\<close>

text \<open>
  C3, as stated, fails: for the field \<open>[[0, 100]]\<close> without clear or edge pixels and
  \<open>ktmean = 0.1\<close>, the required plain-cloud mean \<open>1/10\<close> does not exceed the current
  mean \<open>59/99\<close> of the flipped field, and yet the returned field is the flipped field
  \<open>[[1, 19/99]]\<close> multiplied by the ratio \<open>99/590\<close>.
\<close>

theorem lave_scaling_exact_branch_counterexample:
  "lave_field_max [[0, 100]] [[0, 0]] (99 / 100) = Inr 99
   \<and> lave_clouds3 [[0, 100]] (2 / 10) 99 = [[Fin 1, Fin (19 / 99)]]
   \<and> np_mean (lave_cloud_values [[0, 0]] [[False, False]] [[Fin 1, Fin (19 / 99)]]) = Fin (59 / 99)
   \<and> np_div (lave_diff_sum [[0, 100]] [[0, 0]] [[False, False]]
               (lave_ce [[Fin 1, Fin (19 / 99)]] (14 / 10)) (1 / 10))
        (Fin (real (length (lave_cloud_values [[0, 0]] [[False, False]] [[Fin 1, Fin (19 / 99)]]))))
       = Fin (1 / 10)
   \<and> \<not> np_less (Fin (59 / 99)) (Fin (1 / 10))
   \<and> lave_scaling_exact [[0, 100]] [[0, 0]] [[False, False]] (1 / 10) (14 / 10) (2 / 10) (99 / 100)
       = Inr [[Fin (99 / 590), Fin (19 / 590)]]"
  by code_simp

text \<open>
  C3, amended: in \<open>lave_scaling_exact\<close> the flipped cloud field is multiplied by the
  ratio of the required plain-cloud mean to the current plain-cloud mean exactly when
  \<open>diff_sum\<close> (target sum minus clear-pixel sum minus edge-pixel cloud-enhancement
  sum) is strictly positive, and is left unchanged otherwise; every plain-cloud pixel
  of the returned field carries that value.
\<close>

theorem lave_scaling_exact_scales_on_positive_diff_sum:
  assumes ret: "lave_scaling_exact field clear_mask edge_mask ktmean ktmax kt1pct max_quant = Inr out"
    and i: "i < length field" and j: "j < length (field ! i)"
    and not_clear: "\<not> clear_mask ! i ! j > 0" and not_edge: "\<not> edge_mask ! i ! j"
  shows "\<exists>field_max clouds3 diff_sum cloud_values.
           lave_field_max field clear_mask max_quant = Inr field_max
           \<and> clouds3 = lave_clouds3 field kt1pct field_max
           \<and> diff_sum = lave_diff_sum field clear_mask edge_mask (lave_ce clouds3 ktmax) ktmean
           \<and> cloud_values = lave_cloud_values clear_mask edge_mask clouds3
           \<and> out ! i ! j =
               (if np_less (Fin 0) diff_sum
                then np_mul (np_div (np_div diff_sum (Fin (real (length cloud_values))))
                                    (np_mean cloud_values))
                            (clouds3 ! i ! j)
                else clouds3 ! i ! j)"
proof -
  from ret have sh1: "same_shape field clear_mask" and sh2: "same_shape field edge_mask"
    by (auto simp: lave_scaling_exact_def split: if_splits)
  from ret sh1 sh2 obtain field_max where fm: "lave_field_max field clear_mask max_quant = Inr field_max"
    by (cases "lave_field_max field clear_mask max_quant") (simp_all add: lave_scaling_exact_def)
  define clouds3 where "clouds3 = lave_clouds3 field kt1pct field_max"
  define ce where "ce = lave_ce clouds3 ktmax"
  define diff_sum where "diff_sum = lave_diff_sum field clear_mask edge_mask ce ktmean"
  define cloud_values where "cloud_values = lave_cloud_values clear_mask edge_mask clouds3"
  define ratio where "ratio = np_div (np_div diff_sum (Fin (real (length cloud_values)))) (np_mean cloud_values)"
  define clouds4 where "clouds4 = (if np_less (Fin 0) diff_sum
                           then map (map (\<lambda>v. np_mul ratio v)) clouds3 else clouds3)"
  have out: "out = map (map (\<lambda>((c, e), (v4, vce)). if c > 0 then Fin 1 else if e then vce else v4))
                      (zip2d (zip2d clear_mask edge_mask) (zip2d clouds4 ce))"
    using ret sh1 sh2
    unfolding clouds4_def ratio_def cloud_values_def diff_sum_def ce_def clouds3_def
    by (auto simp add: lave_scaling_exact_def fm Let_def)
  have c3f: "same_shape clouds3 field"
    unfolding clouds3_def lave_clouds3_def by (rule same_shape_map)
  have cef: "same_shape ce clouds3"
    unfolding ce_def lave_ce_def Let_def by (rule same_shape_map)
  have c4c3: "same_shape clouds4 clouds3"
    unfolding clouds4_def by (simp add: same_shape_map) (simp add: same_shape_def)
  have c4f: "same_shape clouds4 field" using c4c3 c3f by (rule same_shape_trans)
  have c4ce: "same_shape clouds4 ce"
    using c4c3 same_shape_sym [OF cef] by (rule same_shape_trans)
  have cme: "same_shape clear_mask edge_mask"
    using same_shape_sym [OF sh1] sh2 by (rule same_shape_trans)
  have i_cm: "i < length clear_mask" using i same_shape_length [OF sh1] by simp
  have j_cm: "j < length (clear_mask ! i)" using j same_shape_row [OF sh1 i] by simp
  have i_c4: "i < length clouds4" using i same_shape_length [OF c4f] by simp
  have j_c4: "j < length (clouds4 ! i)" using j same_shape_row [OF c4f i_c4] by simp
  have i_c3: "i < length clouds3" using i same_shape_length [OF c3f] by simp
  have j_c3: "j < length (clouds3 ! i)" using j same_shape_row [OF c3f i_c3] by simp
  have z1: "zip2d clear_mask edge_mask ! i ! j = (clear_mask ! i ! j, edge_mask ! i ! j)"
    using cme i_cm j_cm by (rule zip2d_nth)
  have z2: "zip2d clouds4 ce ! i ! j = (clouds4 ! i ! j, ce ! i ! j)"
    using c4ce i_c4 j_c4 by (rule zip2d_nth)
  have s1: "same_shape (zip2d clear_mask edge_mask) clear_mask"
    using cme by (rule same_shape_zip2d)
  have s2: "same_shape (zip2d clouds4 ce) clouds4"
    using c4ce by (rule same_shape_zip2d)
  have s12: "same_shape (zip2d clear_mask edge_mask) (zip2d clouds4 ce)"
    using s1 same_shape_sym [OF sh1] same_shape_sym [OF c4f] same_shape_sym [OF s2]
    by (blast intro: same_shape_trans)
  have i_z: "i < length (zip2d clear_mask edge_mask)"
    using i_cm zip2d_length [OF cme] by simp
  have j_z: "j < length (zip2d clear_mask edge_mask ! i)"
    using j_cm zip2d_row_length [OF cme i_cm] by simp
  have z3: "zip2d (zip2d clear_mask edge_mask) (zip2d clouds4 ce) ! i ! j
            = ((clear_mask ! i ! j, edge_mask ! i ! j), (clouds4 ! i ! j, ce ! i ! j))"
    using zip2d_nth [OF s12 i_z j_z] z1 z2 by simp
  have i_zz: "i < length (zip2d (zip2d clear_mask edge_mask) (zip2d clouds4 ce))"
    using i_z zip2d_length [OF s12] by simp
  have j_zz: "j < length (zip2d (zip2d clear_mask edge_mask) (zip2d clouds4 ce) ! i)"
    using j_z zip2d_row_length [OF s12 i_z] by simp
  have "out ! i ! j = clouds4 ! i ! j"
    using i_zz j_zz not_clear not_edge by (simp add: out z3)
  also have "\<dots> = (if np_less (Fin 0) diff_sum then np_mul ratio (clouds3 ! i ! j)
                     else clouds3 ! i ! j)"
    using i_c3 j_c3 by (simp add: clouds4_def)
  finally have "out ! i ! j = (if np_less (Fin 0) diff_sum then np_mul ratio (clouds3 ! i ! j)
                     else clouds3 ! i ! j)" .
  then show ?thesis
    using fm by (simp add: clouds3_def ce_def diff_sum_def cloud_values_def ratio_def)
qed

theorem lave_scaling_exact_scales_on_positive_diff_sum_witness:
  "lave_scaling_exact [[0, 100]] [[0, 0]] [[False, False]] (1 / 10) (14 / 10) (2 / 10) (99 / 100)
     = Inr [[Fin (99 / 590), Fin (19 / 590)]]
   \<and> (0::nat) < length [[0, 100 :: real]] \<and> (1::nat) < length ([[0, 100 :: real]] ! 0)
   \<and> \<not> [[0, 0 :: real]] ! 0 ! 1 > 0 \<and> \<not> [[False, False]] ! 0 ! 1
   \<and> (\<exists>field_max clouds3 diff_sum cloud_values.
           lave_field_max [[0, 100]] [[0, 0]] (99 / 100) = Inr field_max
           \<and> clouds3 = lave_clouds3 [[0, 100]] (2 / 10) field_max
           \<and> diff_sum = lave_diff_sum [[0, 100]] [[0, 0]] [[False, False]]
                          (lave_ce clouds3 (14 / 10)) (1 / 10)
           \<and> cloud_values = lave_cloud_values [[0, 0]] [[False, False]] clouds3
           \<and> [[Fin (99 / 590), Fin (19 / 590)]] ! 0 ! 1 =
               (if np_less (Fin 0) diff_sum
                then np_mul (np_div (np_div diff_sum (Fin (real (length cloud_values))))
                                    (np_mean cloud_values))
                            (clouds3 ! 0 ! 1)
                else clouds3 ! 0 ! 1))"
proof -
  have h1: "lave_scaling_exact [[0, 100]] [[0, 0]] [[False, False]] (1 / 10) (14 / 10) (2 / 10)
              (99 / 100) = Inr [[Fin (99 / 590), Fin (19 / 590)]]"
    by code_simp
  have h2: "(0::nat) < length [[0, 100 :: real]]" by simp
  have h3: "(1::nat) < length ([[0, 100 :: real]] ! 0)" by simp
  have h4: "\<not> [[0, 0 :: real]] ! 0 ! 1 > 0" by simp
  have h5: "\<not> [[False, False]] ! 0 ! 1" by simp
  from lave_scaling_exact_scales_on_positive_diff_sum [OF h1 h2 h3 h4 h5] h1 h2 h3 h4 h5
  show ?thesis by blast
qed

end
